theory Spec2Isabelle
  imports Complex_Main "HOL-Library.Sublist"
begin

chapter \<open>CRM backend: rule evaluator, personalizer, delivery stores and statistics\<close>

section \<open>Data model\<close>

text \<open>
  Owner identifiers and document identifiers are MongoDB ObjectIds; only their equality is
  ever used, so they are natural numbers here. Timestamps are milliseconds since the epoch.
  JavaScript numbers that hold amounts and rule thresholds are rationals (every finite
  double is one); NaN and the infinities are not modelled.
\<close>

type_synonym oid = nat
type_synonym timestamp = int

text \<open>\<^verbatim>\<open>models/Customer.ts\<close>: phone, spend, visits and last_active are optional.\<close>

record customer =
  c_id :: oid
  c_userId :: oid
  c_name :: string
  c_email :: string
  c_phone :: "string option"
  c_spend :: "rat option"
  c_visits :: "rat option"
  c_last_active :: "timestamp option"

subsection \<open>Rule trees (\<^verbatim>\<open>services/segmentRules.ts\<close>)\<close>

datatype field = spend | visits | inactive_days

text \<open>
  A node is a \<^verbatim>\<open>Rule\<close> \<^verbatim>\<open>{field, op, value}\<close> or a \<^verbatim>\<open>RuleGroup\<close>
  \<^verbatim>\<open>{and?, or?}\<close>. The operator is kept as the string the object carries (or
  \<open>None\<close> when it is undefined), because \<^verbatim>\<open>compare\<close> has a default branch.
  \<open>Blank\<close> is the object \<^verbatim>\<open>{field: undefined, op: undefined, value: undefined}\<close>
  that \<^verbatim>\<open>fixRuleStructure\<close> builds from a list entry that is not a rule.
\<close>

datatype node =
    Rule field "string option" rat
  | RuleGroup "node list option" "node list option"
  | Blank

text \<open>\<^verbatim>\<open>function compare(a, op, b)\<close>: a switch on the operator string with default false.\<close>

definition compare :: "rat \<Rightarrow> string option \<Rightarrow> rat \<Rightarrow> bool" where
  "compare a op b =
     (if op = Some ''>'' then a > b
      else if op = Some ''>='' then a \<ge> b
      else if op = Some ''<'' then a < b
      else if op = Some ''<='' then a \<le> b
      else if op = Some ''=='' then a = b
      else if op = Some ''!='' then a \<noteq> b
      else False)"

definition MAX_SAFE_INTEGER :: int where
  "MAX_SAFE_INTEGER = 9007199254740991"

text \<open>
  \<^verbatim>\<open>dayjs().diff(last, 'day')\<close>: whole days between two instants, truncated towards
  zero (time-zone offsets are not modelled).
\<close>

definition diff_days :: "timestamp \<Rightarrow> timestamp \<Rightarrow> int" where
  "diff_days now t =
     (if t \<le> now then (now - t) div 86400000 else - ((t - now) div 86400000))"

text \<open>\<^verbatim>\<open>customer[rule.field] ?? 0\<close> for the two stored numeric fields.\<close>

definition field_value :: "customer \<Rightarrow> field \<Rightarrow> rat" where
  "field_value c f =
     (case (if f = spend then c_spend c else if f = visits then c_visits c else None) of
        Some v \<Rightarrow> v | None \<Rightarrow> 0)"

text \<open>
  \<^verbatim>\<open>evaluateRule\<close>. The tests run in the order of the source: a node with a
  \<^verbatim>\<open>field\<close> key is a leaf; otherwise a truthy \<^verbatim>\<open>and\<close> (any array, the empty
  one included) decides alone by \<^verbatim>\<open>every\<close>; otherwise a truthy \<^verbatim>\<open>or\<close> decides
  by \<^verbatim>\<open>some\<close>; otherwise the result is true. The current time is a parameter.
\<close>

fun evaluateRule :: "timestamp \<Rightarrow> customer \<Rightarrow> node \<Rightarrow> bool" where
  "evaluateRule now c (Rule f op v) =
     (if f = inactive_days then
        (let days = (case c_last_active c of
                       Some t \<Rightarrow> diff_days now t
                     | None \<Rightarrow> MAX_SAFE_INTEGER)
         in compare (of_int days) op v)
      else compare (field_value c f) op v)"
| "evaluateRule now c Blank = False"
| "evaluateRule now c (RuleGroup (Some rs) _) = list_all (evaluateRule now c) rs"
| "evaluateRule now c (RuleGroup None (Some rs)) = list_ex (evaluateRule now c) rs"
| "evaluateRule now c (RuleGroup None None) = True"

subsection \<open>Rule normalization of the segment API (\<^verbatim>\<open>controllers/segments.ts\<close>)\<close>

text \<open>
  The request body's \<^verbatim>\<open>rules_json\<close>: a rule object may name its operator under
  \<^verbatim>\<open>operator\<close> or under \<^verbatim>\<open>op\<close>.
\<close>

datatype raw =
    RawRule field "string option" "string option" rat
  | RawGroup "raw list option" "raw list option"

text \<open>\<^verbatim>\<open>x || y\<close> on optional strings: the empty string and undefined are falsy.\<close>

definition js_or :: "string option \<Rightarrow> string option \<Rightarrow> string option" where
  "js_or x y = (case x of Some s \<Rightarrow> (if s = [] then y else Some s) | None \<Rightarrow> y)"

text \<open>
  The arrow function mapped over the entries of \<^verbatim>\<open>rules.and\<close> / \<^verbatim>\<open>rules.or\<close>: it
  copies \<^verbatim>\<open>field\<close>, \<^verbatim>\<open>operator || op\<close> and \<^verbatim>\<open>value\<close>; an entry that is itself a
  group has none of them.
\<close>

fun fix_entry :: "raw \<Rightarrow> node" where
  "fix_entry (RawRule f operator op v) = Rule f (js_or operator op) v"
| "fix_entry (RawGroup _ _) = Blank"

text \<open>
  An object passed through unchanged, as \<^verbatim>\<open>evaluateRule\<close> reads it: the evaluator
  never looks at the \<^verbatim>\<open>operator\<close> key.
\<close>

fun as_stored :: "raw \<Rightarrow> node" where
  "as_stored (RawRule f operator op v) = Rule f op v"
| "as_stored (RawGroup a b) =
     RuleGroup (map_option (map as_stored) a) (map_option (map as_stored) b)"

fun fixRuleStructure :: "raw \<Rightarrow> node" where
  "fixRuleStructure (RawGroup (Some as) os) =
     RuleGroup (Some (map fix_entry as))
               (Some (case os of Some xs \<Rightarrow> map as_stored xs | None \<Rightarrow> []))"
| "fixRuleStructure (RawGroup None (Some os)) =
     RuleGroup (Some []) (Some (map fix_entry os))"
| "fixRuleStructure (RawRule f operator op v) = Rule f (js_or operator op) v"
| "fixRuleStructure (RawGroup None None) = RuleGroup None None"

subsection \<open>Segments and their materialization (\<^verbatim>\<open>services/segmentPopulation.ts\<close>)\<close>

text \<open>
  What \<^verbatim>\<open>SegmentModel.create\<close> stores of a rules object. On save a key whose value
  is undefined is dropped, so the list entry \<open>Blank\<close> is stored as the empty object,
  which the evaluator reads as a group with neither list; and rules that are the empty
  object are dropped as a whole, so that the stored segment has no \<^verbatim>\<open>rules_json\<close>.
\<close>

fun saved :: "node \<Rightarrow> node" where
  "saved (Rule f op v) = Rule f op v"
| "saved Blank = RuleGroup None None"
| "saved (RuleGroup a b) = RuleGroup (map_option (map saved) a) (map_option (map saved) b)"

definition saved_rules :: "node \<Rightarrow> node option" where
  "saved_rules n = (if saved n = RuleGroup None None then None else Some (saved n))"

record segment =
  s_userId :: oid
  s_name :: string
  rules_json :: "node option"
  customer_ids :: "oid list"
  customer_count :: nat
  last_populated_at :: "timestamp option"

text \<open>
  \<^verbatim>\<open>allCustomers.filter(customer => evaluateRule(customer, segment.rules_json))\<close>, as
  \<^verbatim>\<open>populateSegmentCustomers\<close>, \<^verbatim>\<open>createCampaignWithVendorAPI\<close> and
  \<^verbatim>\<open>deliverCampaign\<close> write it, without a guard. For a segment without
  \<^verbatim>\<open>rules_json\<close> the test \<^verbatim>\<open>'field' in rule\<close> throws a TypeError at the first
  customer; \<open>None\<close> is that throw. With no customer the callback is never called.
\<close>

definition filter_by_rules :: "timestamp \<Rightarrow> node option \<Rightarrow> customer list \<Rightarrow> customer list option" where
  "filter_by_rules now rules allCustomers =
     (case rules of
        Some rule \<Rightarrow> Some (filter (\<lambda>customer. evaluateRule now customer rule) allCustomers)
      | None \<Rightarrow> (if allCustomers = [] then Some [] else None))"

text \<open>
  \<^verbatim>\<open>populateSegmentCustomers\<close>: the customers of the segment's owner, filtered by the
  rule tree, give the id list, the count and a fresh timestamp. \<open>None\<close> is the error
  thrown on to the caller.
\<close>

definition populateSegmentCustomers :: "timestamp \<Rightarrow> customer list \<Rightarrow> segment \<Rightarrow> segment option" where
  "populateSegmentCustomers now customers seg =
     (let allCustomers = filter (\<lambda>c. c_userId c = s_userId seg) customers
      in case filter_by_rules now (rules_json seg) allCustomers of
           None \<Rightarrow> None
         | Some matchingCustomers \<Rightarrow>
             (let customerIds = map c_id matchingCustomers
              in Some (seg\<lparr>customer_ids := customerIds,
                            customer_count := length customerIds,
                            last_populated_at := Some now\<rparr>)))"

text \<open>
  \<^verbatim>\<open>createSegment\<close>: normalize the rules, store the segment for the caller, populate
  it. When the population throws, the handler still answers 201 and the segment stays
  as stored. The result is the segment as the database holds it afterwards.
\<close>

definition createSegment :: "timestamp \<Rightarrow> customer list \<Rightarrow> oid \<Rightarrow> string \<Rightarrow> raw \<Rightarrow> segment" where
  "createSegment now customers userId nm body_rules =
     (let fixedRules = fixRuleStructure body_rules;
          seg = \<lparr>s_userId = userId, s_name = nm, rules_json = saved_rules fixedRules,
                 customer_ids = [], customer_count = 0, last_populated_at = None\<rparr>
      in case populateSegmentCustomers now customers seg of
           Some populated \<Rightarrow> populated
         | None \<Rightarrow> seg)"

text \<open>
  \<^verbatim>\<open>updateSegment\<close> on the segment found under the caller's id (the lookup and its
  404 are not modelled): the body's rules are normalized the same way, the update sets
  \<^verbatim>\<open>rules_json\<close> to the normalized object as it was built, and the segment is
  re-populated when the body carried rules; a throw of the population is caught.
\<close>

definition updateSegment ::
  "timestamp \<Rightarrow> customer list \<Rightarrow> segment \<Rightarrow> string option \<Rightarrow> raw option \<Rightarrow> segment" where
  "updateSegment now customers seg body_name body_rules =
     (let seg1 = (case body_name of Some n \<Rightarrow> seg\<lparr>s_name := n\<rparr> | None \<Rightarrow> seg)
      in case body_rules of
           Some r \<Rightarrow>
             (let seg2 = seg1\<lparr>rules_json := Some (fixRuleStructure r)\<rparr>
              in (case populateSegmentCustomers now customers seg2 of
                    Some populated \<Rightarrow> populated
                  | None \<Rightarrow> seg2))
         | None \<Rightarrow> seg1)"

section \<open>Message personalizer (\<^verbatim>\<open>services/messagePersonalization.ts\<close>)\<close>

subsection \<open>The string primitives of the runtime that the service calls\<close>

text \<open>
  Strings are lists of 8-bit characters; the functions below are exact on ASCII text.
  \<^verbatim>\<open>toLowerCase\<close> maps \<open>A\<close>..\<open>Z\<close> to \<open>a\<close>..\<open>z\<close> and leaves every other
  character alone.
\<close>

definition toLower :: "char \<Rightarrow> char" where
  "toLower c =
     (case map_of (zip ''ABCDEFGHIJKLMNOPQRSTUVWXYZ'' ''abcdefghijklmnopqrstuvwxyz'') c of
        Some l \<Rightarrow> l
      | None \<Rightarrow> c)"

definition toLowerCase :: "string \<Rightarrow> string" where
  "toLowerCase s = map toLower s"

definition startsWith :: "string \<Rightarrow> string \<Rightarrow> bool" where
  "startsWith s p = prefix p s"

text \<open>
  The replacement string of \<^verbatim>\<open>String.prototype.replace\<close> is a template: \<^verbatim>\<open>$$\<close>
  stands for a dollar sign, \<^verbatim>\<open>$&\<close> for the matched text, \<^verbatim>\<open>$`\<close> for the text
  before the match and \<^verbatim>\<open>$'\<close> for the text after it. The patterns used here have
  no capture groups, so every other \<^verbatim>\<open>$\<close> is literal.
\<close>

fun expand :: "string \<Rightarrow> string \<Rightarrow> string \<Rightarrow> string \<Rightarrow> string" where
  "expand [] matched pre post = []"
| "expand [c] matched pre post = [c]"
| "expand (c # d # r) matched pre post =
     (if c = CHR ''$'' then
        (if d = CHR ''$'' then CHR ''$'' # expand r matched pre post
         else if d = CHR ''&'' then matched @ expand r matched pre post
         else if d = CHR 0x60 then pre @ expand r matched pre post
         else if d = CHR 0x27 then post @ expand r matched pre post
         else c # expand (d # r) matched pre post)
      else c # expand (d # r) matched pre post)"

text \<open>
  \<^verbatim>\<open>s.replace(/tok/g, rep)\<close> for a pattern that is one literal token: every
  occurrence, leftmost first and without overlap, is replaced by the expanded template.
  \<open>pre\<close> is the part of the subject already scanned.
\<close>

fun replace_from :: "string \<Rightarrow> string \<Rightarrow> string \<Rightarrow> string \<Rightarrow> string" where
  "replace_from tok rep pre [] = []"
| "replace_from tok rep pre (c # cs) =
     (if tok \<noteq> [] \<and> prefix tok (c # cs)
      then expand rep tok pre (drop (length tok - 1) cs)
           @ replace_from tok rep (pre @ tok) (drop (length tok - 1) cs)
      else c # replace_from tok rep (pre @ [c]) cs)"

definition replaceAll :: "string \<Rightarrow> string \<Rightarrow> string \<Rightarrow> string" where
  "replaceAll s tok rep = replace_from tok rep [] s"

subsection \<open>Personalization\<close>

record customData =
  cd_discount :: "string option"
  cd_storeName :: "string option"
  cd_couponCode :: "string option"
  cd_storeAddress :: "string option"
  cd_storePhone :: "string option"

record PersonalizationData =
  customerName :: string
  customerEmail :: string
  customerPhone :: "string option"
  customerSpend :: rat
  customerVisits :: rat
  lastActive :: string
  discount :: string
  storeName :: string
  couponCode :: string

record PersonalizedMessage =
  originalMessage :: string
  personalizedMessage :: string
  personalizationData :: PersonalizationData

text \<open>\<^verbatim>\<open>s || d\<close> for a string \<open>s\<close> and \<^verbatim>\<open>o || d\<close> for an optional one.\<close>

definition str_or :: "string \<Rightarrow> string \<Rightarrow> string" where
  "str_or s d = (if s = [] then d else s)"

definition opt_or :: "string option \<Rightarrow> string \<Rightarrow> string" where
  "opt_or x d = (case x of Some s \<Rightarrow> str_or s d | None \<Rightarrow> d)"

text \<open>
  \<^verbatim>\<open>personalizeMessage\<close>. The runtime's \<^verbatim>\<open>Number.prototype.toString\<close> and
  \<^verbatim>\<open>Date.prototype.toLocaleDateString\<close> are the parameters \<open>num_str\<close> and
  \<open>date_str\<close>. The thirteen replacements run in the order of the source; the greeting
  test is made on the message after the replacements.
\<close>

definition build_data ::
  "(timestamp \<Rightarrow> string) \<Rightarrow> customer \<Rightarrow> string \<Rightarrow> customData \<Rightarrow> PersonalizationData" where
  "build_data date_str customer fallbackName cd =
     \<lparr>customerName = str_or (c_name customer) fallbackName,
      customerEmail = c_email customer,
      customerPhone = c_phone customer,
      customerSpend = (case c_spend customer of Some v \<Rightarrow> v | None \<Rightarrow> 0),
      customerVisits = (case c_visits customer of Some v \<Rightarrow> v | None \<Rightarrow> 0),
      lastActive = (case c_last_active customer of Some t \<Rightarrow> date_str t | None \<Rightarrow> ''Never''),
      discount = opt_or (cd_discount cd) ''10'',
      storeName = opt_or (cd_storeName cd) ''Our Store'',
      couponCode = opt_or (cd_couponCode cd) ''WELCOME10''\<rparr>"

definition substitute :: "(rat \<Rightarrow> string) \<Rightarrow> PersonalizationData \<Rightarrow> string \<Rightarrow> string" where
  "substitute num_str pd message =
     (let m = replaceAll message ''{customerName}'' (customerName pd);
          m = replaceAll m ''{customerEmail}'' (customerEmail pd);
          m = replaceAll m ''{customerPhone}'' (opt_or (customerPhone pd) ''N/A'');
          m = replaceAll m ''{customerSpend}'' (num_str (customerSpend pd));
          m = replaceAll m ''{customerVisits}'' (num_str (customerVisits pd));
          m = replaceAll m ''{lastActive}'' (str_or (lastActive pd) ''Never'');
          m = replaceAll m ''{name}'' (customerName pd);
          m = replaceAll m ''{Name}'' (customerName pd);
          m = replaceAll m ''{email}'' (customerEmail pd);
          m = replaceAll m ''{phone}'' (opt_or (customerPhone pd) ''N/A'');
          m = replaceAll m ''{discount}'' (str_or (discount pd) ''10'');
          m = replaceAll m ''{storeName}'' (str_or (storeName pd) ''Our Store'');
          m = replaceAll m ''{couponCode}'' (str_or (couponCode pd) ''WELCOME10'')
      in m)"

definition has_greeting :: "string \<Rightarrow> bool" where
  "has_greeting m \<longleftrightarrow>
     startsWith (toLowerCase m) ''hi '' \<or> startsWith (toLowerCase m) ''hello ''
     \<or> startsWith (toLowerCase m) ''dear ''"

definition personalizeMessage ::
  "(rat \<Rightarrow> string) \<Rightarrow> (timestamp \<Rightarrow> string) \<Rightarrow> string \<Rightarrow> customer \<Rightarrow> string \<Rightarrow> customData
     \<Rightarrow> PersonalizedMessage" where
  "personalizeMessage num_str date_str message customer fallbackName cd =
     (let pd = build_data date_str customer fallbackName cd;
          m = substitute num_str pd message;
          m = (if \<not> has_greeting m then ''Hi '' @ customerName pd @ '', '' @ m else m)
      in \<lparr>originalMessage = message, personalizedMessage = m, personalizationData = pd\<rparr>)"

definition personalizeMessages ::
  "(rat \<Rightarrow> string) \<Rightarrow> (timestamp \<Rightarrow> string) \<Rightarrow> string \<Rightarrow> customer list \<Rightarrow> string \<Rightarrow> customData
     \<Rightarrow> PersonalizedMessage list" where
  "personalizeMessages num_str date_str message customers fallbackName cd =
     map (\<lambda>customer. personalizeMessage num_str date_str message customer fallbackName cd) customers"

subsection \<open>Template validation\<close>

definition getAvailablePlaceholders :: "string list" where
  "getAvailablePlaceholders =
     [''{customerName}'', ''{customerEmail}'', ''{customerPhone}'', ''{customerSpend}'',
      ''{customerVisits}'', ''{lastActive}'', ''{name}'', ''{Name}'', ''{email}'', ''{phone}'',
      ''{discount}'', ''{storeName}'', ''{couponCode}'']"

text \<open>
  \<^verbatim>\<open>message.match(/\{[^}]+\}/g) || []\<close>: scanning from the left, an opening brace
  followed by a non-empty run of characters other than the closing brace and then a
  closing brace is one match, and the scan resumes after it; at any other position the
  scan moves one character on.
\<close>

function match_placeholders :: "string \<Rightarrow> string list" where
  "match_placeholders [] = []"
| "match_placeholders (c # cs) =
     (if c = CHR ''{'' then
        (let body = takeWhile (\<lambda>x. x \<noteq> CHR ''}'') cs;
             rest = dropWhile (\<lambda>x. x \<noteq> CHR ''}'') cs
         in if body \<noteq> [] \<and> rest \<noteq> []
            then (CHR ''{'' # body @ ''}'') # match_placeholders (tl rest)
            else match_placeholders cs)
      else match_placeholders cs)"
  by pat_completeness auto
termination
proof (relation "measure length")
  fix c :: char and cs body rest
  assume "rest = dropWhile (\<lambda>x. x \<noteq> CHR ''}'') cs"
  then have "length (tl rest) \<le> length cs"
    using length_dropWhile_le [of "\<lambda>x. x \<noteq> CHR ''}''" cs] by simp
  then show "(tl rest, c # cs) \<in> measure length" by simp
qed simp_all

record validation =
  isValid :: bool
  invalidPlaceholders :: "string list"

definition validateTemplate :: "string \<Rightarrow> validation" where
  "validateTemplate message =
     (let availablePlaceholders = getAvailablePlaceholders;
          foundPlaceholders = match_placeholders message;
          invalid = filter (\<lambda>placeholder. placeholder \<notin> set availablePlaceholders) foundPlaceholders
      in \<lparr>isValid = (length invalid = 0), invalidPlaceholders = invalid\<rparr>)"

section \<open>Delivery records\<close>

text \<open>
  \<^verbatim>\<open>models/CommunicationLog.ts\<close> and \<^verbatim>\<open>models/SentMessage.ts\<close>. Both status enums
  have the same four values. A collection is the list of its documents in insertion
  order and a document's \<^verbatim>\<open>_id\<close> is its position: the functions modelled here never
  delete. The HTML body, the discount block and the personalization flags of a sent
  message are written once and never read by these functions; they are left out.
\<close>

datatype status = PENDING | QUEUED | SENT | FAILED

record sent_message =
  sm_userId :: oid
  recipientEmail :: string
  recipientName :: "string option"
  sm_subject :: string
  textContent :: string
  sm_status :: status
  sentAt :: timestamp
  messageId :: "string option"
  errorMessage :: "string option"
  sm_campaignId :: "oid option"
  createdAt :: timestamp
  updatedAt :: timestamp

record communication_log =
  cl_userId :: oid
  cl_campaign_id :: "oid option"
  cl_customer_id :: "oid option"
  cl_status :: status
  sent_at :: "timestamp option"
  updated_at :: "timestamp option"
  cl_message :: string
  vendor_message_id :: "string option"
  error_message :: "string option"

datatype campaign_status = DRAFT | ACTIVE | PAUSED | COMPLETED | CANCELLED

record campaign =
  cp_userId :: oid
  cp_segment_id :: oid
  cp_message :: string
  cp_subject :: string
  cp_status :: campaign_status

record db =
  users :: "(oid \<times> string) list"
  customers :: "customer list"
  segments :: "segment list"
  campaigns :: "campaign list"
  communication_logs :: "communication_log list"
  sent_messages :: "sent_message list"

text \<open>\<^verbatim>\<open>Model.findById\<close>, and the position of the first document matching a filter.\<close>

definition findById :: "'a list \<Rightarrow> oid \<Rightarrow> 'a option" where
  "findById xs i = (if i < length xs then Some (xs ! i) else None)"

fun find_first :: "('a \<Rightarrow> bool) \<Rightarrow> 'a list \<Rightarrow> nat option" where
  "find_first P [] = None"
| "find_first P (x # xs) = (if P x then Some 0 else map_option Suc (find_first P xs))"

section \<open>Queue drain loop (\<^verbatim>\<open>services/messageQueueService.ts\<close>)\<close>

record QueueMessage =
  qm_messageId :: string
  qm_recipientEmail :: string
  qm_recipientName :: "string option"
  qm_subject :: string
  qm_textContent :: string
  qm_userId :: oid

text \<open>
  The state the service works on: the database and its own busy flag.
\<close>

record queue_state =
  isProcessing :: bool
  store :: db

text \<open>
  \<^verbatim>\<open>SentMessageModel.findOne({status: 'QUEUED'}).sort({createdAt: 1})\<close>: among the
  queued documents one with the least creation time; among equals the one inserted
  first.
\<close>

fun oldest_of :: "sent_message list \<Rightarrow> nat list \<Rightarrow> nat option" where
  "oldest_of xs [] = None"
| "oldest_of xs (i # is) =
     (case oldest_of xs is of
        None \<Rightarrow> Some i
      | Some j \<Rightarrow> (if createdAt (xs ! i) \<le> createdAt (xs ! j) then Some i else Some j))"

definition next_queued :: "sent_message list \<Rightarrow> nat option" where
  "next_queued xs = oldest_of xs (filter (\<lambda>i. sm_status (xs ! i) = QUEUED) [0..<length xs])"

definition failureReasons :: "string list" where
  "failureReasons =
     [''Invalid email address'', ''Recipient mailbox full'', ''Domain not found'',
      ''Recipient blocked sender'', ''Temporary delivery failure'', ''Network timeout'',
      ''Recipient server unavailable'', ''Message too large'', ''Spam filter blocked'',
      ''Authentication failed'']"

text \<open>
  \<^verbatim>\<open>processQueue\<close>, one wake-up, in the two steps that its processing delay
  separates. The first step tests the busy flag and reads the next QUEUED sent
  message; the result is the state and the document read, with its \<^verbatim>\<open>_id\<close>.
\<close>

definition processQueue_read :: "queue_state \<Rightarrow> queue_state \<times> (oid \<times> sent_message) option" where
  "processQueue_read st =
     (if isProcessing st then (st, None)
      else case next_queued (sent_messages (store st)) of
             None \<Rightarrow> (st\<lparr>isProcessing := False\<rparr>, None)
           | Some i \<Rightarrow> (st\<lparr>isProcessing := True\<rparr>, Some (i, sent_messages (store st) ! i)))"

text \<open>
  The second step runs after the delay, on the store as it is then: other handlers may
  have written in between (the busy flag keeps only other wake-ups out). It updates the
  sent message by the \<^verbatim>\<open>_id\<close> read and the first communication log by the message id
  read; neither update has a condition on the status found. The two random draws are
  parameters: \<open>isSuccess\<close> is \<^verbatim>\<open>Math.random() < 0.9\<close> and \<open>k\<close> is the index drawn
  into the failure reasons. Each \<^verbatim>\<open>new Date()\<close> of the two update objects is a
  reading of the clock of its own: \<open>write_clock\<close>. A key of an update object whose
  value is undefined is dropped from the update (Mongoose 6 and later; the connection
  options used are those of that line), so the field keeps its value: \<open>set_defined\<close>.
  Storage calls are taken to succeed.
\<close>

record write_clock =
  clk_sentAt :: timestamp
  clk_updatedAt :: timestamp
  clk_sent_at :: timestamp
  clk_updated_at :: timestamp

definition set_defined :: "'a option \<Rightarrow> 'a option \<Rightarrow> 'a option" where
  "set_defined v old = (case v of Some x \<Rightarrow> Some x | None \<Rightarrow> old)"

definition processQueue_write ::
  "write_clock \<Rightarrow> bool \<Rightarrow> nat \<Rightarrow> oid \<times> sent_message \<Rightarrow> queue_state \<Rightarrow> queue_state" where
  "processQueue_write clock isSuccess k picked st =
     (let d = store st;
          i = fst picked;
          queuedMessage = snd picked;
          finalStatus = (if isSuccess then SENT else FAILED);
          errMsg = (if isSuccess then None
                    else if k < length failureReasons then Some (failureReasons ! k)
                    else None);
          sms = (sent_messages d)[i := (sent_messages d ! i)\<lparr>sm_status := finalStatus,
                   sentAt := clk_sentAt clock,
                   errorMessage := set_defined errMsg (errorMessage (sent_messages d ! i)),
                   updatedAt := clk_updatedAt clock\<rparr>];
          logs = (case find_first (\<lambda>l. vendor_message_id l = messageId queuedMessage)
                        (communication_logs d) of
                    None \<Rightarrow> communication_logs d
                  | Some j \<Rightarrow> (communication_logs d)[j := (communication_logs d ! j)
                      \<lparr>cl_status := finalStatus,
                       sent_at := set_defined
                                    (if isSuccess then Some (clk_sent_at clock) else None)
                                    (sent_at (communication_logs d ! j)),
                       error_message := set_defined errMsg
                                          (error_message (communication_logs d ! j)),
                       updated_at := Some (clk_updated_at clock)\<rparr>])
      in st\<lparr>isProcessing := False,
            store := d\<lparr>sent_messages := sms, communication_logs := logs\<rparr>\<rparr>)"


text \<open>
  \<^verbatim>\<open>addToQueue\<close>: a QUEUED sent message, then a QUEUED communication log. Either
  \<^verbatim>\<open>create\<close> may throw, and the error is thrown on to the caller; which one throws,
  if any, is the parameter \<open>fault\<close>. The result is the database afterwards and the
  error thrown, if any.
\<close>

datatype enqueue_fault = NoFault | SentCreateThrows string | LogCreateThrows string

definition queued_sent_message :: "timestamp \<Rightarrow> QueueMessage \<Rightarrow> sent_message" where
  "queued_sent_message now m =
     \<lparr>sm_userId = qm_userId m, recipientEmail = qm_recipientEmail m,
      recipientName = qm_recipientName m, sm_subject = qm_subject m,
      textContent = qm_textContent m, sm_status = QUEUED, sentAt = now,
      messageId = Some (qm_messageId m), errorMessage = None, sm_campaignId = None,
      createdAt = now, updatedAt = now\<rparr>"

definition queued_log :: "timestamp \<Rightarrow> QueueMessage \<Rightarrow> communication_log" where
  "queued_log now m =
     \<lparr>cl_userId = qm_userId m, cl_campaign_id = None, cl_customer_id = None,
      cl_status = QUEUED, sent_at = Some now, updated_at = Some now,
      cl_message = qm_textContent m, vendor_message_id = Some (qm_messageId m),
      error_message = None\<rparr>"

fun addToQueue :: "enqueue_fault \<Rightarrow> timestamp \<Rightarrow> QueueMessage \<Rightarrow> db \<Rightarrow> db \<times> string option" where
  "addToQueue (SentCreateThrows e) now m d = (d, Some e)"
| "addToQueue (LogCreateThrows e) now m d =
     (d\<lparr>sent_messages := sent_messages d @ [queued_sent_message now m]\<rparr>, Some e)"
| "addToQueue NoFault now m d =
     (d\<lparr>sent_messages := sent_messages d @ [queued_sent_message now m],
        communication_logs := communication_logs d @ [queued_log now m]\<rparr>, None)"

text \<open>
  \<^verbatim>\<open>getQueueStats\<close>: the aggregation has no \<^verbatim>\<open>$match\<close> stage; it groups every sent
  message by status, and the groups overwrite the four zero entries of the result.
\<close>

definition all_statuses :: "status list" where
  "all_statuses = [PENDING, QUEUED, SENT, FAILED]"

definition group_by_status :: "sent_message list \<Rightarrow> (status \<times> nat) list" where
  "group_by_status ms =
     map (\<lambda>s. (s, length (filter (\<lambda>m. sm_status m = s) ms)))
         (filter (\<lambda>s. \<exists>m \<in> set ms. sm_status m = s) all_statuses)"

definition format_stats :: "(status \<times> nat) list \<Rightarrow> status \<Rightarrow> nat" where
  "format_stats stats = fold (\<lambda>stat result. result(fst stat := snd stat)) stats (\<lambda>_. 0)"

definition getQueueStats :: "db \<Rightarrow> status \<Rightarrow> nat" where
  "getQueueStats d = format_stats (group_by_status (sent_messages d))"

section \<open>Delivery receipts and statistics (\<^verbatim>\<open>controllers/deliveryReceipt.ts\<close>)\<close>

text \<open>
  The receipt body. \<^verbatim>\<open>deliveredAt\<close> is a string that the handler tests for
  truthiness and then hands to \<^verbatim>\<open>new Date\<close>: it is absent (or empty), or it does not
  parse (an invalid date, which the cast of an update refuses by throwing), or it is
  an instant. A status outside SENT and FAILED is rejected.
\<close>

datatype date_field = Absent | Unparsable | Instant timestamp

record DeliveryReceiptRequest =
  rq_messageId :: string
  rq_status :: status
  rq_deliveredAt :: date_field
  rq_errorMessage :: "string option"

datatype http = Ok200 | Created201 | BadRequest400 | NotFound404 | ServerError500

text \<open>
  \<^verbatim>\<open>handleDeliveryReceipt\<close>. The log is looked up by message id alone and updated
  whatever its current status; then the sent message with that message id, if there is
  one, is updated too. An error message that is the empty string is falsy. An update
  that carries an invalid date throws before it writes, and the handler answers 500:
  for a SENT receipt that is the update of the log, for a FAILED receipt the update
  of the sent message, after the log has been written.
\<close>

definition handleDeliveryReceipt :: "timestamp \<Rightarrow> DeliveryReceiptRequest \<Rightarrow> db \<Rightarrow> http \<times> db" where
  "handleDeliveryReceipt now rq d =
     (if rq_messageId rq = [] \<or> rq_deliveredAt rq = Absent then (BadRequest400, d)
      else if rq_status rq \<noteq> SENT \<and> rq_status rq \<noteq> FAILED then (BadRequest400, d)
      else case find_first (\<lambda>l. vendor_message_id l = Some (rq_messageId rq))
                  (communication_logs d) of
        None \<Rightarrow> (NotFound404, d)
      | Some j \<Rightarrow>
          (let err = (case rq_errorMessage rq of
                        Some e \<Rightarrow> (if e = [] then None else Some e) | None \<Rightarrow> None);
               deliveredAt = (case rq_deliveredAt rq of Instant t \<Rightarrow> Some t | _ \<Rightarrow> None);
               l = communication_logs d ! j;
               l1 = l\<lparr>cl_status := rq_status rq, updated_at := Some now\<rparr>
           in if rq_status rq = SENT \<and> deliveredAt = None then (ServerError500, d)
              else
                (let l2 = (if rq_status rq = SENT then l1\<lparr>sent_at := deliveredAt\<rparr>
                           else if err \<noteq> None then l1\<lparr>error_message := err\<rparr>
                           else l1);
                     d1 = d\<lparr>communication_logs := (communication_logs d)[j := l2]\<rparr>
                 in case deliveredAt of
                      None \<Rightarrow> (ServerError500, d1)
                    | Some t \<Rightarrow>
                        (case find_first (\<lambda>m. messageId m = Some (rq_messageId rq))
                                (sent_messages d1) of
                           None \<Rightarrow> (Ok200, d1)
                         | Some i \<Rightarrow>
                             (let m = sent_messages d1 ! i;
                                  m1 = m\<lparr>sm_status := rq_status rq, sentAt := t\<rparr>;
                                  m2 = (if rq_status rq = FAILED \<and> err \<noteq> None
                                        then m1\<lparr>errorMessage := err\<rparr> else m1)
                              in (Ok200, d1\<lparr>sent_messages := (sent_messages d1)[i := m2]\<rparr>))))))"

subsection \<open>The floating-point arithmetic of the runtime\<close>

text \<open>
  A JavaScript number is an IEEE 754 double. Every finite double is a rational, and
  \<open>to_double x\<close> is the double nearest to the rational \<open>x\<close>, a tie going to the even
  significand: with \<open>e\<close> the exponent of \<open>x\<close> (the integer with
  \<open>2^e \<le> |x| < 2^(e+1)\<close>), the doubles around \<open>x\<close> are the multiples of
  \<open>2^(e-52)\<close>. Overflow and subnormal numbers are not modelled; the statistics stay far
  from both. A quotient or a product of two doubles is the nearest double to the exact
  result. Counts of documents are integers below \<open>2^53\<close>, which are doubles.
\<close>

function bit_length :: "int \<Rightarrow> nat" where
  "bit_length n = (if n \<le> 0 then 0 else Suc (bit_length (n div 2)))"
  by pat_completeness auto
termination
  by (relation "measure nat") auto

definition pow2 :: "int \<Rightarrow> rat" where
  "pow2 e = (if 0 \<le> e then 2 ^ nat e else 1 / 2 ^ nat (- e))"

definition exponent_of :: "rat \<Rightarrow> int" where
  "exponent_of x =
     (let p = fst (quotient_of x); q = snd (quotient_of x);
          e = int (bit_length p) - int (bit_length q)
      in if pow2 e \<le> x then e else e - 1)"

definition round_half_even :: "rat \<Rightarrow> int" where
  "round_half_even m =
     (let f = \<lfloor>m\<rfloor>; r = m - of_int f
      in if r < 1 / 2 then f else if 1 / 2 < r then f + 1
         else if even f then f else f + 1)"

definition to_double :: "rat \<Rightarrow> rat" where
  "to_double x =
     (if x = 0 then 0
      else (let a = \<bar>x\<bar>; ulp = pow2 (exponent_of a - 52)
            in sgn x * (of_int (round_half_even (a / ulp)) * ulp)))"

definition js_divide :: "rat \<Rightarrow> rat \<Rightarrow> rat" where
  "js_divide a b = to_double (a / b)"

definition js_times :: "rat \<Rightarrow> rat \<Rightarrow> rat" where
  "js_times a b = to_double (a * b)"

text \<open>
  \<^verbatim>\<open>Math.round\<close>: the integer nearest to the double, a tie going up.
  \<^verbatim>\<open>Math.round(rate * 100) / 100\<close> multiplies and divides in floating point.
  \<^verbatim>\<open>toFixed(2)\<close> prints the decimal with two fraction digits nearest to the double
  itself, a tie going up; its value is the number printed.
\<close>

definition Math_round :: "rat \<Rightarrow> int" where
  "Math_round x = \<lfloor>x + 1 / 2\<rfloor>"

definition round2 :: "rat \<Rightarrow> rat" where
  "round2 rate = js_divide (of_int (Math_round (js_times rate 100))) 100"

definition toFixed2 :: "rat \<Rightarrow> rat" where
  "toFixed2 x = of_int \<lfloor>x * 100 + 1 / 2\<rfloor> / 100"

subsection \<open>Delivery statistics of an owner\<close>

text \<open>
  \<^verbatim>\<open>getDeliveryStats\<close> of the controller. The aggregation matches on the owner; with
  a campaign in the query it also matches on a field \<^verbatim>\<open>campaign_id\<close>, which no sent
  message has (the schema calls it \<^verbatim>\<open>campaignId\<close>), so nothing matches. The success
  rate is \<^verbatim>\<open>((SENT / total) * 100).toFixed(2)\<close>.
\<close>

record delivery_stats =
  ds_stats :: "status \<Rightarrow> nat"
  ds_total :: nat
  ds_successRate :: rat

definition getDeliveryStats :: "oid \<Rightarrow> oid option \<Rightarrow> db \<Rightarrow> delivery_stats" where
  "getDeliveryStats userId campaignId d =
     (let matched = (case campaignId of
                       None \<Rightarrow> filter (\<lambda>m. sm_userId m = userId) (sent_messages d)
                     | Some _ \<Rightarrow> []);
          formattedStats = format_stats (group_by_status matched);
          total = fold (\<lambda>s sum. sum + formattedStats s) all_statuses 0;
          successRate = (if total > 0
                         then toFixed2 (js_times (js_divide (of_nat (formattedStats SENT))
                                                           (of_nat total)) 100)
                         else 0)
      in \<lparr>ds_stats = formattedStats, ds_total = total, ds_successRate = successRate\<rparr>)"

subsection \<open>Campaign statistics (\<^verbatim>\<open>controllers/campaignStats.ts\<close>)\<close>

record campaign_stats =
  total :: nat
  sent :: nat
  failed :: nat
  pending :: nat
  queued :: nat
  deliveryRate :: rat
  successRate :: rat
  failureRate :: rat

definition countDocuments :: "('a \<Rightarrow> bool) \<Rightarrow> 'a list \<Rightarrow> nat" where
  "countDocuments P xs = length (filter P xs)"

text \<open>
  \<^verbatim>\<open>getCampaignStats\<close>, given the campaign id it reads from the request (the router
  registers the handler under \<^verbatim>\<open>/:id/stats\<close> while the handler reads the parameter
  \<^verbatim>\<open>campaignId\<close>; the 400 for a missing id is not modelled). Five counts over the
  communication log of one campaign and owner, each awaited on its own, so each finds
  the store as it is at that moment: \<open>d1\<close> to \<open>d5\<close>. Then three rates, each
  \<^verbatim>\<open>Math.round(rate * 100) / 100\<close>.
\<close>

definition getCampaignStats_reads ::
  "oid \<Rightarrow> oid \<Rightarrow> db \<Rightarrow> db \<Rightarrow> db \<Rightarrow> db \<Rightarrow> db \<Rightarrow> campaign_stats" where
  "getCampaignStats_reads campaignId userId d1 d2 d3 d4 d5 =
     (let mine = (\<lambda>l. cl_campaign_id l = Some campaignId \<and> cl_userId l = userId);
          total = countDocuments mine (communication_logs d1);
          sent = countDocuments (\<lambda>l. mine l \<and> cl_status l = SENT) (communication_logs d2);
          failed = countDocuments (\<lambda>l. mine l \<and> cl_status l = FAILED) (communication_logs d3);
          pending = countDocuments (\<lambda>l. mine l \<and> cl_status l = PENDING) (communication_logs d4);
          queued = countDocuments (\<lambda>l. mine l \<and> cl_status l = QUEUED) (communication_logs d5);
          deliveryRate = (if total > 0
                          then js_times (js_divide (of_nat (sent + failed)) (of_nat total)) 100
                          else 0);
          successRate = (if total > 0
                         then js_times (js_divide (of_nat sent) (of_nat total)) 100 else 0);
          failureRate = (if total > 0
                         then js_times (js_divide (of_nat failed) (of_nat total)) 100 else 0)
      in \<lparr>total = total, sent = sent, failed = failed, pending = pending, queued = queued,
          deliveryRate = round2 deliveryRate, successRate = round2 successRate,
          failureRate = round2 failureRate\<rparr>)"

text \<open>The handler when nothing is written to the store between its five counts.\<close>

definition getCampaignStats :: "oid \<Rightarrow> oid \<Rightarrow> db \<Rightarrow> campaign_stats" where
  "getCampaignStats campaignId userId d = getCampaignStats_reads campaignId userId d d d d d"

section \<open>Campaign delivery\<close>

subsection \<open>Rendering identifiers and clock readings\<close>

text \<open>
  Message ids are built by string interpolation of document ids and \<^verbatim>\<open>Date.now()\<close>.
  Identifiers are rendered in decimal here (an ObjectId prints as hexadecimal; only
  the injectivity of the rendering could matter).
\<close>

fun show_nat :: "nat \<Rightarrow> string" where
  "show_nat n = (if n < 10 then [''0123456789'' ! n]
                 else show_nat (n div 10) @ [''0123456789'' ! (n mod 10)])"

definition show_int :: "int \<Rightarrow> string" where
  "show_int i = (if i < 0 then ''-'' @ show_nat (nat (- i)) else show_nat (nat i))"

definition mk_messageId :: "oid \<Rightarrow> oid \<Rightarrow> timestamp \<Rightarrow> string" where
  "mk_messageId campaign customer now =
     ''campaign_'' @ show_nat campaign @ ''_'' @ show_nat customer @ ''_'' @ show_int now"

subsection \<open>The campaign delivery service (\<^verbatim>\<open>services/campaignDeliveryService.ts\<close>)\<close>

record delivery_log =
  dl_customerId :: string
  dl_customerEmail :: string
  dl_status :: status
  dl_messageId :: string
  dl_error :: "string option"

record CampaignDeliveryResult =
  campaignId :: string
  totalCustomers :: nat
  messagesQueued :: nat
  messagesSent :: nat
  messagesFailed :: nat
  deliveryLogs :: "delivery_log list"

text \<open>
  \<^verbatim>\<open>getCustomersForSegment\<close>: the owner's customers that the rule tree accepts.
  A segment without \<^verbatim>\<open>rules_json\<close> gives the empty list, by the guard
  \<^verbatim>\<open>if (!segment.rules_json) return []\<close>. The evaluation of each customer sits in a
  \<^verbatim>\<open>try\<close> whose \<^verbatim>\<open>catch\<close> answers false; on rules that are present the evaluator
  does not throw. Storage calls are taken to succeed.
\<close>

definition getCustomersForSegment :: "timestamp \<Rightarrow> db \<Rightarrow> segment \<Rightarrow> customer list" where
  "getCustomersForSegment now d seg =
     (let allCustomers = filter (\<lambda>c. c_userId c = s_userId seg) (customers d)
      in case rules_json seg of
           None \<Rightarrow> []
         | Some rules \<Rightarrow> filter (\<lambda>customer. evaluateRule now customer rules) allCustomers)"

text \<open>
  The service's own private \<^verbatim>\<open>personalizeMessage\<close>, used for the subject line.
\<close>

definition service_personalizeMessage ::
  "(rat \<Rightarrow> string) \<Rightarrow> string \<Rightarrow> customer \<Rightarrow> customData option \<Rightarrow> string" where
  "service_personalizeMessage num_str message customer pdata =
     (let m = replaceAll message ''{customerName}'' (str_or (c_name customer) ''Customer'');
          m = replaceAll m ''{customerEmail}'' (c_email customer);
          m = replaceAll m ''{customerPhone}'' (opt_or (c_phone customer) []);
          m = replaceAll m ''{customerSpend}''
                (case c_spend customer of Some v \<Rightarrow> str_or (num_str v) ''0'' | None \<Rightarrow> ''0'');
          m = replaceAll m ''{customerVisits}''
                (case c_visits customer of Some v \<Rightarrow> str_or (num_str v) ''0'' | None \<Rightarrow> ''0'')
      in case pdata of
           None \<Rightarrow> m
         | Some pd \<Rightarrow>
             (let m = replaceAll m ''{storeName}'' (opt_or (cd_storeName pd) ''Your Store'');
                  m = replaceAll m ''{storeAddress}'' (opt_or (cd_storeAddress pd) []);
                  m = replaceAll m ''{storePhone}'' (opt_or (cd_storePhone pd) [])
              in m))"

definition empty_customData :: customData where
  "empty_customData = \<lparr>cd_discount = None, cd_storeName = None, cd_couponCode = None,
     cd_storeAddress = None, cd_storePhone = None\<rparr>"

record loop_state =
  ls_db :: db
  ls_logs :: "delivery_log list"
  ls_queued :: nat
  ls_failed :: nat

text \<open>
  The body of the \<^verbatim>\<open>for (const customer of customers)\<close> loop with its
  \<^verbatim>\<open>try\<close>/\<^verbatim>\<open>catch\<close>. What \<^verbatim>\<open>addToQueue\<close> does for a customer is given by
  \<open>faults\<close>, keyed by the customer's id. The catch branch pushes a FAILED entry onto
  the result's list and writes nothing to the database.
\<close>

definition deliver_customer ::
  "(rat \<Rightarrow> string) \<Rightarrow> (timestamp \<Rightarrow> string) \<Rightarrow> (oid \<Rightarrow> enqueue_fault) \<Rightarrow> timestamp \<Rightarrow> oid \<Rightarrow> oid
     \<Rightarrow> string \<Rightarrow> string option \<Rightarrow> customData option \<Rightarrow> customer \<Rightarrow> loop_state \<Rightarrow> loop_state" where
  "deliver_customer num_str date_str faults now userId campaign message subject pdata customer st =
     (let personalized = personalizeMessages num_str date_str message [customer]
                           ''Valued Customer''
                           (case pdata of Some pd \<Rightarrow> pd | None \<Rightarrow> empty_customData) ! 0;
          personalizedSubject =
            (case subject of
               Some sj \<Rightarrow> (if sj = [] then ''Campaign Email''
                           else service_personalizeMessage num_str sj customer pdata)
             | None \<Rightarrow> ''Campaign Email'');
          mid = mk_messageId campaign (c_id customer) now;
          (d, thrown) = addToQueue (faults (c_id customer)) now
             \<lparr>qm_messageId = mid, qm_recipientEmail = c_email customer,
              qm_recipientName = Some (c_name customer), qm_subject = personalizedSubject,
              qm_textContent = personalizedMessage personalized, qm_userId = userId\<rparr>
             (ls_db st)
      in case thrown of
           None \<Rightarrow>
             st\<lparr>ls_db := d,
                ls_logs := ls_logs st @ [\<lparr>dl_customerId = show_nat (c_id customer),
                   dl_customerEmail = c_email customer, dl_status = QUEUED,
                   dl_messageId = mid, dl_error = None\<rparr>],
                ls_queued := ls_queued st + 1\<rparr>
         | Some e \<Rightarrow>
             st\<lparr>ls_db := d,
                ls_logs := ls_logs st @ [\<lparr>dl_customerId = show_nat (c_id customer),
                   dl_customerEmail = c_email customer, dl_status = FAILED,
                   dl_messageId = mk_messageId campaign (c_id customer) now,
                   dl_error = Some e\<rparr>],
                ls_failed := ls_failed st + 1\<rparr>)"

fun deliver_customers ::
  "(customer \<Rightarrow> loop_state \<Rightarrow> loop_state) \<Rightarrow> customer list \<Rightarrow> loop_state \<Rightarrow> loop_state" where
  "deliver_customers body [] st = st"
| "deliver_customers body (customer # rest) st = deliver_customers body rest (body customer st)"

text \<open>
  \<^verbatim>\<open>createAndDeliverCampaign\<close>. \<open>Inl\<close> is the error thrown to the caller. With no
  matching customer the function returns the empty result before any campaign is
  created. The counts of sent and failed messages in the result are the constant 0.
\<close>

definition createAndDeliverCampaign ::
  "(rat \<Rightarrow> string) \<Rightarrow> (timestamp \<Rightarrow> string) \<Rightarrow> (oid \<Rightarrow> enqueue_fault) \<Rightarrow> timestamp \<Rightarrow> oid \<Rightarrow> oid
     \<Rightarrow> string \<Rightarrow> string option \<Rightarrow> customData option \<Rightarrow> db
     \<Rightarrow> (string + CampaignDeliveryResult) \<times> db" where
  "createAndDeliverCampaign num_str date_str faults now userId segmentId message subject pdata d =
     (case findById (segments d) segmentId of
        None \<Rightarrow> (Inl ''Segment not found or access denied'', d)
      | Some seg \<Rightarrow>
          if s_userId seg \<noteq> userId then (Inl ''Segment not found or access denied'', d)
          else
            (let matching = getCustomersForSegment now d seg
             in if length matching = 0
                then (Inr \<lparr>campaignId = [], totalCustomers = 0, messagesQueued = 0,
                           messagesSent = 0, messagesFailed = 0, deliveryLogs = []\<rparr>, d)
                else
                  (let cid = length (campaigns d);
                       d1 = d\<lparr>campaigns := campaigns d @
                              [\<lparr>cp_userId = userId, cp_segment_id = segmentId,
                                cp_message = message,
                                cp_subject = opt_or subject ''Campaign Email'',
                                cp_status = ACTIVE\<rparr>]\<rparr>;
                       st = deliver_customers
                              (deliver_customer num_str date_str faults now userId cid
                                 message subject pdata)
                              matching
                              \<lparr>ls_db = d1, ls_logs = [], ls_queued = 0, ls_failed = 0\<rparr>
                   in (Inr \<lparr>campaignId = show_nat cid, totalCustomers = length matching,
                             messagesQueued = ls_queued st, messagesSent = 0,
                             messagesFailed = 0, deliveryLogs = ls_logs st\<rparr>,
                       ls_db st))))"

subsection \<open>The campaign controller (\<^verbatim>\<open>controllers/campaigns.ts\<close>)\<close>

record campaign_body =
  b_segment_id :: "oid option"
  b_message :: string
  b_subject :: "string option"
  b_customData :: "customData option"
  b_discount_percentage :: "rat option"

text \<open>
  \<^verbatim>\<open>customData || {discount: ..., storeName: 'Your Store', couponCode: ...}\<close>.
\<close>

definition finalCustomData :: "(rat \<Rightarrow> string) \<Rightarrow> campaign_body \<Rightarrow> customData" where
  "finalCustomData num_str body =
     (case b_customData body of
        Some cd \<Rightarrow> cd
      | None \<Rightarrow>
          \<lparr>cd_discount = Some (case b_discount_percentage body of
                                 Some v \<Rightarrow> str_or (num_str v) ''10'' | None \<Rightarrow> ''10''),
           cd_storeName = Some ''Your Store'',
           cd_couponCode = Some (''WELCOME'' @
                                 (case b_discount_percentage body of
                                    Some v \<Rightarrow> (if v = 0 then ''10'' else num_str v)
                                  | None \<Rightarrow> ''10'')),
           cd_storeAddress = None, cd_storePhone = None\<rparr>)"

datatype 'a response = Response http 'a | Failure http string

text \<open>
  \<^verbatim>\<open>createCampaign\<close>: the request checks, then the delivery service; what the service
  throws becomes a 500.
\<close>

definition createCampaign ::
  "(rat \<Rightarrow> string) \<Rightarrow> (timestamp \<Rightarrow> string) \<Rightarrow> (oid \<Rightarrow> enqueue_fault) \<Rightarrow> timestamp \<Rightarrow> oid
     \<Rightarrow> campaign_body \<Rightarrow> db \<Rightarrow> CampaignDeliveryResult response \<times> db" where
  "createCampaign num_str date_str faults now userId body d =
     (case b_segment_id body of
        None \<Rightarrow> (Failure BadRequest400 ''segment_id and message are required'', d)
      | Some segment_id \<Rightarrow>
          if b_message body = [] then (Failure BadRequest400 ''segment_id and message are required'', d)
          else if \<not> isValid (validateTemplate (b_message body))
          then (Failure BadRequest400 ''Invalid message template'', d)
          else
            (case findById (segments d) segment_id of
               None \<Rightarrow> (Failure NotFound404 ''Segment not found'', d)
             | Some seg \<Rightarrow>
                 if s_userId seg \<noteq> userId then (Failure NotFound404 ''Segment not found'', d)
                 else
                   (case createAndDeliverCampaign num_str date_str faults now userId segment_id
                           (b_message body) (Some (opt_or (b_subject body) ''Campaign Message''))
                           (Some (finalCustomData num_str body)) d of
                      (Inr result, d') \<Rightarrow> (Response Created201 result, d')
                    | (Inl e, d') \<Rightarrow>
                        (Failure ServerError500 ''Failed to create and deliver campaign'', d'))))"




subsection \<open>\<^verbatim>\<open>deliverCampaign\<close>\<close>

text \<open>
  What the four \<^verbatim>\<open>create\<close> calls of one loop iteration do: the error thrown by the
  SENT sent-message or the SENT log, if any, and whether the FAILED sent message and
  the FAILED log of the catch branch throw.
\<close>

record store_fault =
  sent_throws :: "string option"
  log_throws :: "string option"
  failed_sent_throws :: bool
  failed_log_throws :: bool

definition campaign_sent_message ::
  "timestamp \<Rightarrow> oid \<Rightarrow> string \<Rightarrow> customer \<Rightarrow> PersonalizedMessage \<Rightarrow> status \<Rightarrow> string
     \<Rightarrow> string option \<Rightarrow> oid option \<Rightarrow> sent_message" where
  "campaign_sent_message now owner subject customer pm st mid err camp =
     \<lparr>sm_userId = owner, recipientEmail = c_email customer,
      recipientName = Some (c_name customer), sm_subject = subject,
      textContent = personalizedMessage pm, sm_status = st, sentAt = now,
      messageId = Some mid, errorMessage = err, sm_campaignId = camp,
      createdAt = now, updatedAt = now\<rparr>"

text \<open>
  The catch branch of one iteration: the FAILED sent message is written inside its own
  \<^verbatim>\<open>try\<close>; the FAILED log is not, so its error leaves the loop. The result is the
  database and whether an error left the loop.
\<close>

definition record_failure ::
  "store_fault \<Rightarrow> timestamp \<Rightarrow> oid \<Rightarrow> oid \<Rightarrow> string \<Rightarrow> customer \<Rightarrow> PersonalizedMessage \<Rightarrow> string
     \<Rightarrow> db \<Rightarrow> db \<times> bool" where
  "record_failure f now owner campaign subject customer pm e d =
     (let d1 = (if failed_sent_throws f then d
                else d\<lparr>sent_messages := sent_messages d @
                       [campaign_sent_message now owner subject customer pm FAILED
                          (mk_messageId campaign (c_id customer) now @ ''_failed'')
                          (Some e) None]\<rparr>)
      in if failed_log_throws f then (d1, True)
         else (d1\<lparr>communication_logs := communication_logs d1 @
                    [\<lparr>cl_userId = owner, cl_campaign_id = Some campaign,
                      cl_customer_id = Some (c_id customer), cl_status = FAILED,
                      sent_at = None, updated_at = Some now,
                      cl_message = personalizedMessage pm, vendor_message_id = None,
                      error_message = Some e\<rparr>]\<rparr>, False))"

definition store_customer ::
  "(oid \<Rightarrow> store_fault) \<Rightarrow> timestamp \<Rightarrow> oid \<Rightarrow> oid \<Rightarrow> string \<Rightarrow> customer \<times> PersonalizedMessage
     \<Rightarrow> db \<Rightarrow> db \<times> bool" where
  "store_customer faults now owner campaign subject cp d =
     (let customer = fst cp; pm = snd cp; f = faults (c_id customer);
          mid = mk_messageId campaign (c_id customer) now
      in case sent_throws f of
           Some e \<Rightarrow> record_failure f now owner campaign subject customer pm e d
         | None \<Rightarrow>
             (let d1 = d\<lparr>sent_messages := sent_messages d @
                         [campaign_sent_message now owner subject customer pm SENT mid None
                            (Some campaign)]\<rparr>
              in case log_throws f of
                   Some e \<Rightarrow> record_failure f now owner campaign subject customer pm e d1
                 | None \<Rightarrow>
                     (d1\<lparr>communication_logs := communication_logs d1 @
                          [\<lparr>cl_userId = owner, cl_campaign_id = Some campaign,
                            cl_customer_id = Some (c_id customer), cl_status = SENT,
                            sent_at = Some now, updated_at = Some now,
                            cl_message = personalizedMessage pm,
                            vendor_message_id = Some mid, error_message = None\<rparr>]\<rparr>,
                      False)))"

fun store_customers ::
  "(customer \<times> PersonalizedMessage \<Rightarrow> db \<Rightarrow> db \<times> bool) \<Rightarrow> (customer \<times> PersonalizedMessage) list
     \<Rightarrow> db \<Rightarrow> db \<times> bool" where
  "store_customers body [] d = (d, False)"
| "store_customers body (cp # rest) d =
     (case body cp d of
        (d', True) \<Rightarrow> (d', True)
      | (d', False) \<Rightarrow> store_customers body rest d')"

definition set_campaign_status :: "oid \<Rightarrow> campaign_status \<Rightarrow> db \<Rightarrow> db" where
  "set_campaign_status campaign st d =
     d\<lparr>campaigns := (campaigns d)[campaign := (campaigns d ! campaign)\<lparr>cp_status := st\<rparr>]\<rparr>"

text \<open>
  \<^verbatim>\<open>deliverCampaign\<close> for an existing campaign. It returns nothing; the result here
  is the database afterwards. Without the segment, or without its owner's e-mail
  address, it returns at once. The customers are filtered without a guard. With no
  matching customer the campaign is marked COMPLETED. An error that leaves the loop,
  or that the evaluator throws, reaches the outer \<^verbatim>\<open>catch\<close>, which marks the campaign
  CANCELLED.
\<close>

definition deliverCampaign ::
  "(rat \<Rightarrow> string) \<Rightarrow> (timestamp \<Rightarrow> string) \<Rightarrow> (oid \<Rightarrow> store_fault) \<Rightarrow> timestamp \<Rightarrow> oid \<Rightarrow> oid
     \<Rightarrow> string \<Rightarrow> string \<Rightarrow> customData option \<Rightarrow> db \<Rightarrow> db" where
  "deliverCampaign num_str date_str faults now campaign segmentId message subject cdata d =
     (case findById (segments d) segmentId of
        None \<Rightarrow> d
      | Some seg \<Rightarrow>
          (case map_of (users d) (s_userId seg) of
             None \<Rightarrow> d
           | Some em \<Rightarrow>
               if em = [] then d
               else
                 (let allCustomers = filter (\<lambda>c. c_userId c = s_userId seg) (customers d)
                  in case filter_by_rules now (rules_json seg) allCustomers of
                       None \<Rightarrow> set_campaign_status campaign CANCELLED d
                     | Some matchingCustomers \<Rightarrow>
                         if length matchingCustomers = 0
                         then set_campaign_status campaign COMPLETED d
                         else
                           (let cd = (case cdata of Some c \<Rightarrow> c | None \<Rightarrow> empty_customData);
                                pdata = \<lparr>cd_discount = Some (opt_or (cd_discount cd) ''10''),
                                         cd_storeName = Some (opt_or (cd_storeName cd) ''Your Store''),
                                         cd_couponCode = Some (opt_or (cd_couponCode cd) ''WELCOME10''),
                                         cd_storeAddress = None, cd_storePhone = None\<rparr>;
                                personalizedMessages =
                                  personalizeMessages num_str date_str message matchingCustomers
                                    ''Valued Customer'' pdata;
                                (d1, thrown) =
                                  store_customers
                                    (store_customer faults now (s_userId seg) campaign subject)
                                    (zip matchingCustomers personalizedMessages) d
                            in if thrown then set_campaign_status campaign CANCELLED d1
                               else set_campaign_status campaign COMPLETED d1))))"

chapter \<open>Verified properties\<close>

section \<open>Notions of the specification\<close>

text \<open>
  A \<^verbatim>\<open>{...}\<close> token of a template, in the words of the specification and
  independently of how the validator scans: a string made of an opening brace, at least
  one character none of which is a closing brace, and a closing brace. It occurs in a
  template when it is a contiguous part of it (\<open>sublist\<close>).
\<close>

definition placeholder_token :: "string \<Rightarrow> bool" where
  "placeholder_token t =
     (case t of
        [] \<Rightarrow> False
      | c # r \<Rightarrow> c = CHR ''{'' \<and> r \<noteq> [] \<and> last r = CHR ''}''
                 \<and> butlast r \<noteq> [] \<and> CHR ''}'' \<notin> set (butlast r))"

text \<open>
  The communication logs of one campaign and owner: what the campaign statistics
  count.
\<close>

definition campaign_logs :: "oid \<Rightarrow> oid \<Rightarrow> db \<Rightarrow> communication_log list" where
  "campaign_logs cid uid d =
     filter (\<lambda>l. cl_campaign_id l = Some cid \<and> cl_userId l = uid)
       (communication_logs d)"

section \<open>Fixtures used by the concrete checks\<close>

definition ann :: customer where
  "ann = \<lparr>c_id = 1, c_userId = 7, c_name = ''Ann'', c_email = ''ann@x.io'', c_phone = None,
           c_spend = Some 500, c_visits = Some 2, c_last_active = None\<rparr>"

definition bob :: customer where
  "bob = \<lparr>c_id = 2, c_userId = 7, c_name = ''Bob'', c_email = ''bob@x.io'', c_phone = None,
           c_spend = Some 1500, c_visits = Some 9, c_last_active = Some 0\<rparr>"

definition no_data :: customData where
  "no_data = \<lparr>cd_discount = None, cd_storeName = None, cd_couponCode = None,
               cd_storeAddress = None, cd_storePhone = None\<rparr>"

text \<open>Printers standing for the runtime's number and date formatting in the checks.\<close>

definition fmt_num :: "rat \<Rightarrow> string" where
  "fmt_num x = show_int \<lfloor>x\<rfloor>"

definition fmt_date :: "timestamp \<Rightarrow> string" where
  "fmt_date t = ''day '' @ show_int (t div 86400000)"

definition msg_a :: sent_message where
  "msg_a = \<lparr>sm_userId = 7, recipientEmail = ''ann@x.io'', recipientName = Some ''Ann'',
             sm_subject = ''Sale'', textContent = ''Hi Ann, sale'', sm_status = QUEUED,
             sentAt = 20, messageId = Some ''m-a'', errorMessage = None,
             sm_campaignId = None, createdAt = 20, updatedAt = 20\<rparr>"

definition msg_b :: sent_message where
  "msg_b = \<lparr>sm_userId = 8, recipientEmail = ''zed@y.io'', recipientName = Some ''Zed'',
             sm_subject = ''News'', textContent = ''Hi Zed, news'', sm_status = QUEUED,
             sentAt = 10, messageId = Some ''m-b'', errorMessage = None,
             sm_campaignId = None, createdAt = 10, updatedAt = 10\<rparr>"

definition log_a :: communication_log where
  "log_a = \<lparr>cl_userId = 7, cl_campaign_id = Some 0, cl_customer_id = Some 1,
             cl_status = QUEUED, sent_at = Some 20, updated_at = Some 20,
             cl_message = ''Hi Ann, sale'', vendor_message_id = Some ''m-a'',
             error_message = None\<rparr>"

definition log_b :: communication_log where
  "log_b = \<lparr>cl_userId = 8, cl_campaign_id = Some 1, cl_customer_id = Some 5,
             cl_status = QUEUED, sent_at = Some 10, updated_at = Some 10,
             cl_message = ''Hi Zed, news'', vendor_message_id = Some ''m-b'',
             error_message = None\<rparr>"


definition seg_any :: segment where
  "seg_any = \<lparr>s_userId = 7, s_name = ''Everyone'',
               rules_json = Some (RuleGroup (Some [Rule spend (Some ''>='') 0]) None),
               customer_ids = [], customer_count = 0, last_populated_at = None\<rparr>"


definition camp0 :: campaign where
  "camp0 = \<lparr>cp_userId = 7, cp_segment_id = 0, cp_message = ''Sale'', cp_subject = ''Sale'',
             cp_status = ACTIVE\<rparr>"

definition db_empty :: db where
  "db_empty = \<lparr>users = [(7, ''owner@x.io'')], customers = [], segments = [], campaigns = [],
                communication_logs = [], sent_messages = []\<rparr>"

definition db_queue :: db where
  "db_queue = db_empty\<lparr>communication_logs := [log_a, log_b], sent_messages := [msg_a, msg_b]\<rparr>"


definition db_two :: db where
  "db_two = db_empty\<lparr>customers := [ann, bob], segments := [seg_any], campaigns := [camp0]\<rparr>"

definition clock_96 :: write_clock where
  "clock_96 = \<lparr>clk_sentAt = 96, clk_updatedAt = 97, clk_sent_at = 98, clk_updated_at = 99\<rparr>"



definition faults_first :: "oid \<Rightarrow> enqueue_fault" where
  "faults_first i = (if i = 1 then SentCreateThrows ''write failed'' else NoFault)"


definition store_first :: "oid \<Rightarrow> store_fault" where
  "store_first i = \<lparr>sent_throws = (if i = 1 then Some ''write failed'' else None),
                    log_throws = None, failed_sent_throws = False,
                    failed_log_throws = False\<rparr>"
section \<open>Rule evaluator\<close>

text \<open>
  C3 (as stated): an empty \<^verbatim>\<open>and\<close> list gives true, and a populated \<^verbatim>\<open>or\<close> list
  gives true exactly when one of its branches is true. The second half fails whenever
  the node also has an \<^verbatim>\<open>and\<close> list, because that list decides alone: with
  \<^verbatim>\<open>and: [spend < 100]\<close> and \<^verbatim>\<open>or: [spend > 100]\<close> a customer who spent 500
  satisfies the \<^verbatim>\<open>or\<close> branch and is rejected; with \<^verbatim>\<open>and: []\<close> and
  \<^verbatim>\<open>or: [spend > 1000]\<close> the same customer satisfies no \<^verbatim>\<open>or\<close> branch and is
  accepted.
\<close>

theorem C3_or_ignored_counterexample:
  "\<not> evaluateRule 0 ann (RuleGroup (Some [Rule spend (Some ''<'') 100])
                                   (Some [Rule spend (Some ''>'') 100]))
   \<and> evaluateRule 0 ann (Rule spend (Some ''>'') 100)
   \<and> evaluateRule 0 ann (RuleGroup (Some []) (Some [Rule spend (Some ''>'') 1000]))
   \<and> \<not> evaluateRule 0 ann (Rule spend (Some ''>'') 1000)"
  by (simp add: compare_def field_value_def ann_def)

text \<open>
  C3 (amended): a node with an \<^verbatim>\<open>and\<close> list evaluates to the conjunction of that
  list's branches, whatever its \<^verbatim>\<open>or\<close> list holds, so an empty \<^verbatim>\<open>and\<close> list gives
  true; a node without an \<^verbatim>\<open>and\<close> list and with an \<^verbatim>\<open>or\<close> list evaluates to true
  exactly when at least one \<^verbatim>\<open>or\<close> branch does.
\<close>

theorem C3_evaluateRule_group:
  "evaluateRule now c (RuleGroup (Some []) os)
   \<and> (evaluateRule now c (RuleGroup (Some as) os) \<longleftrightarrow> (\<forall>a \<in> set as. evaluateRule now c a))
   \<and> (evaluateRule now c (RuleGroup None (Some bs)) \<longleftrightarrow> (\<exists>b \<in> set bs. evaluateRule now c b))"
  by (simp add: list_all_iff list_ex_iff)

theorem C3_evaluateRule_group_witness:
  "evaluateRule 0 ann (RuleGroup (Some []) None)
   \<and> (evaluateRule 0 ann (RuleGroup (Some [Rule spend (Some ''>'') 100, Rule visits (Some ''<='') 2]) None)
        \<longleftrightarrow> (\<forall>a \<in> set [Rule spend (Some ''>'') 100, Rule visits (Some ''<='') 2]. evaluateRule 0 ann a))
   \<and> (evaluateRule 0 ann (RuleGroup None (Some [Rule spend (Some ''>'') 1000, Rule visits (Some ''=='') 2]))
        \<longleftrightarrow> (\<exists>b \<in> set [Rule spend (Some ''>'') 1000, Rule visits (Some ''=='') 2]. evaluateRule 0 ann b))
   \<and> evaluateRule 0 ann (RuleGroup None (Some [Rule spend (Some ''>'') 1000, Rule visits (Some ''=='') 2]))"
  using C3_evaluateRule_group [of 0 ann None
          "[Rule spend (Some ''>'') 100, Rule visits (Some ''<='') 2]"
          "[Rule spend (Some ''>'') 1000, Rule visits (Some ''=='') 2]"]
  by (simp add: compare_def field_value_def ann_def)

text \<open>
  C10: a group of the shape \<^verbatim>\<open>{and: [], or: branches}\<close> accepts every customer; that
  is the shape \<^verbatim>\<open>fixRuleStructure\<close> returns for an input with an \<^verbatim>\<open>or\<close> list and no
  \<^verbatim>\<open>and\<close> list; hence a segment created, or updated, through the API with such rules
  is populated with every customer of its owner.
\<close>

theorem C10_or_only_matches_everyone:
  "evaluateRule now c (RuleGroup (Some []) (Some branches))
   \<and> fixRuleStructure (RawGroup None (Some os)) = RuleGroup (Some []) (Some (map fix_entry os))
   \<and> customer_ids (createSegment now cs uid nm (RawGroup None (Some os)))
       = map c_id (filter (\<lambda>c. c_userId c = uid) cs)
   \<and> customer_ids (updateSegment now cs seg bn (Some (RawGroup None (Some os))))
       = map c_id (filter (\<lambda>c. c_userId c = s_userId seg) cs)"
  by (simp add: createSegment_def updateSegment_def populateSegmentCustomers_def
           filter_by_rules_def saved_rules_def Let_def split: option.splits)

section \<open>Message personalizer\<close>

lemma replace_from_keeps:
  "CHR ''{'' \<notin> set p \<Longrightarrow>
     replace_from (CHR ''{'' # t) rep pre (p @ s) = p @ replace_from (CHR ''{'' # t) rep (pre @ p) s"
proof (induction p arbitrary: pre)
  case Nil
  then show ?case by simp
next
  case (Cons a p)
  then have "a \<noteq> CHR ''{''" and "CHR ''{'' \<notin> set p" by auto
  then show ?case using Cons.IH [of "pre @ [a]"] by simp
qed

lemma replaceAll_keeps:
  "CHR ''{'' \<notin> set p \<Longrightarrow> \<exists>s'. replaceAll (p @ s) (CHR ''{'' # t) rep = p @ s'"
  by (simp add: replaceAll_def replace_from_keeps)

lemma substitute_keeps:
  assumes "CHR ''{'' \<notin> set p"
  shows "\<exists>s'. substitute num_str pd (p @ s) = p @ s'"
proof -
  note k = replaceAll_keeps [OF assms]
  obtain s1 where 1: "replaceAll (p @ s) ''{customerName}'' (customerName pd) = p @ s1"
    using k by blast
  obtain s2 where 2: "replaceAll (p @ s1) ''{customerEmail}'' (customerEmail pd) = p @ s2"
    using k by blast
  obtain s3 where 3: "replaceAll (p @ s2) ''{customerPhone}'' (opt_or (customerPhone pd) ''N/A'') = p @ s3"
    using k by blast
  obtain s4 where 4: "replaceAll (p @ s3) ''{customerSpend}'' (num_str (customerSpend pd)) = p @ s4"
    using k by blast
  obtain s5 where 5: "replaceAll (p @ s4) ''{customerVisits}'' (num_str (customerVisits pd)) = p @ s5"
    using k by blast
  obtain s6 where 6: "replaceAll (p @ s5) ''{lastActive}'' (str_or (lastActive pd) ''Never'') = p @ s6"
    using k by blast
  obtain s7 where 7: "replaceAll (p @ s6) ''{name}'' (customerName pd) = p @ s7"
    using k by blast
  obtain s8 where 8: "replaceAll (p @ s7) ''{Name}'' (customerName pd) = p @ s8"
    using k by blast
  obtain s9 where 9: "replaceAll (p @ s8) ''{email}'' (customerEmail pd) = p @ s9"
    using k by blast
  obtain s10 where 10: "replaceAll (p @ s9) ''{phone}'' (opt_or (customerPhone pd) ''N/A'') = p @ s10"
    using k by blast
  obtain s11 where 11: "replaceAll (p @ s10) ''{discount}'' (str_or (discount pd) ''10'') = p @ s11"
    using k by blast
  obtain s12 where 12: "replaceAll (p @ s11) ''{storeName}'' (str_or (storeName pd) ''Our Store'') = p @ s12"
    using k by blast
  obtain s13 where 13: "replaceAll (p @ s12) ''{couponCode}'' (str_or (couponCode pd) ''WELCOME10'') = p @ s13"
    using k by blast
  have "substitute num_str pd (p @ s) = p @ s13"
    unfolding substitute_def Let_def
    by (simp only: 1 2 3 4 5 6 7 8 9 10 11 12 13)
  then show ?thesis by blast
qed

lemma toLower_brace: "toLower (CHR ''{'') = CHR ''{''"
  by (simp add: toLower_def)

lemma lower_prefix_keeps:
  assumes g: "CHR ''{'' \<notin> set g" and pre: "startsWith (toLowerCase m) g"
  shows "startsWith (toLowerCase (substitute num_str pd m)) g"
proof -
  define p where "p = take (length g) m"
  define s where "s = drop (length g) m"
  have m: "m = p @ s" by (simp add: p_def s_def)
  from pre obtain r where r: "map toLower m = g @ r"
    by (auto simp: startsWith_def toLowerCase_def prefix_def)
  then have pg: "map toLower p = g"
    unfolding p_def by (metis append_eq_conv_conj take_map)
  have "CHR ''{'' \<notin> set p"
  proof
    assume "CHR ''{'' \<in> set p"
    then have "toLower (CHR ''{'') \<in> set (map toLower p)" by simp
    with pg g show False by (simp add: toLower_brace)
  qed
  then obtain s' where "substitute num_str pd (p @ s) = p @ s'"
    using substitute_keeps by blast
  then show ?thesis
    by (simp add: m startsWith_def toLowerCase_def pg)
qed

lemma greeting_kept: "has_greeting m \<Longrightarrow> has_greeting (substitute num_str pd m)"
  unfolding has_greeting_def
  using lower_prefix_keeps [of "''hi ''" m] lower_prefix_keeps [of "''hello ''" m]
    lower_prefix_keeps [of "''dear ''" m]
  by auto

text \<open>
  C6 (as stated): a template that does not start with a greeting always gets the
  prefix. It fails when a substituted value brings the greeting: the template
  \<^verbatim>\<open>{name}, welcome\<close> does not start with one, yet for a customer named
  \<^verbatim>\<open>Dear Ann\<close> the output is the substituted text with no prefix.
\<close>

theorem C6_greeting_from_value_counterexample:
  "\<not> has_greeting ''{name}, welcome''
   \<and> personalizedMessage (personalizeMessage fmt_num fmt_date ''{name}, welcome''
        (ann\<lparr>c_name := ''Dear Ann''\<rparr>) ''Valued Customer'' no_data) = ''Dear Ann, welcome''
   \<and> ''Dear Ann, welcome'' \<noteq> ''Hi Dear Ann, Dear Ann, welcome''"
  by code_simp

text \<open>
  C6 (amended): the greeting test is made on the message after substitution. The
  output is the substituted template, prefixed with \<^verbatim>\<open>Hi <customerName>, \<close> exactly
  when the substituted template does not start with \<^verbatim>\<open>hi \<close>, \<^verbatim>\<open>hello \<close> or
  \<^verbatim>\<open>dear \<close> (case-insensitive); a template that itself starts with one of those
  greetings still starts with it after substitution, so it gets no prefix.
\<close>

theorem C6_personalizeMessage_greeting:
  "personalizedMessage (personalizeMessage num_str date_str t c fb cd) =
     (if has_greeting (substitute num_str (build_data date_str c fb cd) t)
      then substitute num_str (build_data date_str c fb cd) t
      else ''Hi '' @ customerName (build_data date_str c fb cd) @ '', ''
           @ substitute num_str (build_data date_str c fb cd) t)
   \<and> (has_greeting t \<longrightarrow>
        personalizedMessage (personalizeMessage num_str date_str t c fb cd)
          = substitute num_str (build_data date_str c fb cd) t)"
  using greeting_kept [of t num_str "build_data date_str c fb cd"]
  by (simp add: personalizeMessage_def Let_def)

theorem C6_personalizeMessage_greeting_witness:
  "has_greeting ''Hello {name}, your code is {couponCode}''
   \<and> personalizedMessage (personalizeMessage fmt_num fmt_date
        ''Hello {name}, your code is {couponCode}'' ann ''Valued Customer'' no_data)
       = ''Hello Ann, your code is WELCOME10''
   \<and> personalizedMessage (personalizeMessage fmt_num fmt_date
        ''Enjoy {discount}% off, {customerName}!'' ann ''Valued Customer''
        (no_data\<lparr>cd_discount := Some ''15''\<rparr>))
       = ''Hi Ann, Enjoy 15% off, Ann!''"
proof -
  have g: "has_greeting ''Hello {name}, your code is {couponCode}''"
    by code_simp
  have s1: "substitute fmt_num (build_data fmt_date ann ''Valued Customer'' no_data)
              ''Hello {name}, your code is {couponCode}'' = ''Hello Ann, your code is WELCOME10''"
    by code_simp
  have s2: "substitute fmt_num
              (build_data fmt_date ann ''Valued Customer'' (no_data\<lparr>cd_discount := Some ''15''\<rparr>))
              ''Enjoy {discount}% off, {customerName}!'' = ''Enjoy 15% off, Ann!''"
    by code_simp
  have n: "\<not> has_greeting ''Enjoy 15% off, Ann!''"
    by code_simp
  have nm: "customerName (build_data fmt_date ann ''Valued Customer''
              (no_data\<lparr>cd_discount := Some ''15''\<rparr>)) = ''Ann''"
    by code_simp
  have r1: "personalizedMessage (personalizeMessage fmt_num fmt_date
        ''Hello {name}, your code is {couponCode}'' ann ''Valued Customer'' no_data)
       = ''Hello Ann, your code is WELCOME10''"
    using C6_personalizeMessage_greeting [of fmt_num fmt_date
            "''Hello {name}, your code is {couponCode}''" ann "''Valued Customer''" no_data] g
    unfolding s1 by blast
  have r2: "personalizedMessage (personalizeMessage fmt_num fmt_date
        ''Enjoy {discount}% off, {customerName}!'' ann ''Valued Customer''
        (no_data\<lparr>cd_discount := Some ''15''\<rparr>))
       = ''Hi '' @ ''Ann'' @ '', '' @ ''Enjoy 15% off, Ann!''"
    using C6_personalizeMessage_greeting [of fmt_num fmt_date
            "''Enjoy {discount}% off, {customerName}!''" ann "''Valued Customer''"
            "no_data\<lparr>cd_discount := Some ''15''\<rparr>"] n
    unfolding s2 nm by presburger
  show ?thesis using g r1 r2 by simp
qed

section \<open>Template validation\<close>

lemma placeholder_token_iff:
  "placeholder_token t \<longleftrightarrow>
     (\<exists>body. t = CHR ''{'' # body @ ''}'' \<and> body \<noteq> [] \<and> CHR ''}'' \<notin> set body)"
proof
  assume a: "placeholder_token t"
  then obtain c r where t: "t = c # r" by (cases t) (auto simp: placeholder_token_def)
  with a have r: "c = CHR ''{''" "r \<noteq> []" "last r = CHR ''}''" "butlast r \<noteq> []"
    "CHR ''}'' \<notin> set (butlast r)"
    by (auto simp: placeholder_token_def)
  from r(2) have "r = butlast r @ [last r]" by simp
  with r(3) have "r = butlast r @ ''}''" by simp
  with t r show "\<exists>body. t = CHR ''{'' # body @ ''}'' \<and> body \<noteq> [] \<and> CHR ''}'' \<notin> set body"
    by blast
next
  assume "\<exists>body. t = CHR ''{'' # body @ ''}'' \<and> body \<noteq> [] \<and> CHR ''}'' \<notin> set body"
  then show "placeholder_token t" by (auto simp: placeholder_token_def)
qed

lemma match_placeholders_shape:
  "t \<in> set (match_placeholders m) \<Longrightarrow>
     \<exists>body. t = ''{'' @ body @ ''}'' \<and> body \<noteq> [] \<and> CHR ''}'' \<notin> set body \<and> sublist t m"
proof (induction m rule: match_placeholders.induct)
  case 1
  then show ?case by simp
next
  case (2 c cs)
  define body where "body = takeWhile (\<lambda>x. x \<noteq> CHR ''}'') cs"
  define rest where "rest = dropWhile (\<lambda>x. x \<noteq> CHR ''}'') cs"
  have cs: "cs = body @ rest" by (simp add: body_def rest_def)
  show ?case
  proof (cases "c = CHR ''{'' \<and> body \<noteq> [] \<and> rest \<noteq> []")
    case True
    then have hd: "hd rest = CHR ''}''"
      unfolding rest_def using hd_dropWhile [of "\<lambda>x. x \<noteq> CHR ''}''" cs] by auto
    with True have rest: "rest = CHR ''}'' # tl rest" by (cases rest) auto
    from True "2.prems" have "t = CHR ''{'' # body @ ''}'' \<or> t \<in> set (match_placeholders (tl rest))"
      by (simp add: body_def rest_def Let_def)
    then show ?thesis
    proof
      assume t: "t = CHR ''{'' # body @ ''}''"
      have "c # cs = [] @ t @ tl rest" using True cs rest t by simp
      then have "sublist t (c # cs)" unfolding sublist_def by blast
      moreover have "CHR ''}'' \<notin> set body"
        unfolding body_def using set_takeWhileD by fastforce
      ultimately show ?thesis using t True by auto
    next
      assume "t \<in> set (match_placeholders (tl rest))"
      with "2.IH"(1) [OF _ body_def rest_def] True
      obtain b where b: "t = ''{'' @ b @ ''}''" "b \<noteq> []" "CHR ''}'' \<notin> set b" "sublist t (tl rest)"
        by (auto simp: body_def rest_def)
      have "suffix (tl rest) (c # cs)"
        unfolding suffix_def using cs rest by (metis append_Cons append_assoc append_Nil)
      with b(4) have "sublist t (c # cs)"
        by (meson sublist_order.order_trans suffix_imp_sublist)
      with b show ?thesis by blast
    qed
  next
    case False
    with "2.prems" have "t \<in> set (match_placeholders cs)"
      by (auto simp: body_def rest_def Let_def split: if_splits)
    moreover have "t \<in> set (match_placeholders cs) \<Longrightarrow>
        \<exists>b. t = ''{'' @ b @ ''}'' \<and> b \<noteq> [] \<and> CHR ''}'' \<notin> set b \<and> sublist t cs"
      using False "2.IH"(2) [OF _ body_def rest_def] "2.IH"(3)
      by (auto simp: body_def rest_def)
    ultimately obtain b where b: "t = ''{'' @ b @ ''}''" "b \<noteq> []" "CHR ''}'' \<notin> set b" "sublist t cs"
      by blast
    then have "sublist t (c # cs)" by (simp add: sublist_Cons_right)
    with b show ?thesis by blast
  qed
qed

text \<open>A token that starts where the scan stands is the match the scan makes there.\<close>

lemma token_at_head:
  assumes "placeholder_token t" and "prefix t (c # cs)"
  shows "c = CHR ''{''"
    and "takeWhile (\<lambda>x. x \<noteq> CHR ''}'') cs \<noteq> []"
    and "dropWhile (\<lambda>x. x \<noteq> CHR ''}'') cs \<noteq> []"
    and "t = CHR ''{'' # takeWhile (\<lambda>x. x \<noteq> CHR ''}'') cs @ ''}''"
proof -
  from assms(1) obtain body where t: "t = CHR ''{'' # body @ ''}''" "body \<noteq> []"
    "CHR ''}'' \<notin> set body"
    unfolding placeholder_token_iff by blast
  from assms(2) obtain zs where "c # cs = t @ zs" unfolding prefix_def by blast
  with t(1) have c: "c = CHR ''{''" and cs: "cs = body @ CHR ''}'' # zs" by simp_all
  have tw: "takeWhile (\<lambda>x. x \<noteq> CHR ''}'') cs = body"
    unfolding cs using t(3) by (subst takeWhile_append2) auto
  have dw: "dropWhile (\<lambda>x. x \<noteq> CHR ''}'') cs = CHR ''}'' # zs"
    unfolding cs using t(3) by (subst dropWhile_append2) auto
  show "c = CHR ''{''" by (rule c)
  show "takeWhile (\<lambda>x. x \<noteq> CHR ''}'') cs \<noteq> []" using tw t(2) by simp
  show "dropWhile (\<lambda>x. x \<noteq> CHR ''}'') cs \<noteq> []" using dw by simp
  show "t = CHR ''{'' # takeWhile (\<lambda>x. x \<noteq> CHR ''}'') cs @ ''}''" using tw t(1) by simp
qed

text \<open>
  A token that occurs after the opening brace of a match either ends with the match
  or lies behind it.
\<close>

lemma token_in_match:
  assumes "placeholder_token t" and "CHR ''}'' \<notin> set body"
    and "sublist t (body @ CHR ''}'' # r)"
  shows "suffix t (body @ ''}'') \<or> sublist t r"
  using assms(2,3)
proof (induction body)
  case Nil
  then have "prefix t (CHR ''}'' # r) \<or> sublist t r" by (simp add: sublist_Cons_right)
  moreover have "\<not> prefix t (CHR ''}'' # r)"
    using token_at_head(1) [OF assms(1)] by fastforce
  ultimately show ?case by simp
next
  case (Cons x xs)
  from Cons.prems(2) have "prefix t (x # xs @ CHR ''}'' # r) \<or> sublist t (xs @ CHR ''}'' # r)"
    by (simp add: sublist_Cons_right)
  then show ?case
  proof
    assume p: "prefix t (x # xs @ CHR ''}'' # r)"
    have "takeWhile (\<lambda>x. x \<noteq> CHR ''}'') (xs @ CHR ''}'' # r) = xs"
      using Cons.prems(1) by (subst takeWhile_append2) auto
    with token_at_head(1,4) [OF assms(1) p] have "t = x # xs @ ''}''" by simp
    then show ?thesis by simp
  next
    assume "sublist t (xs @ CHR ''}'' # r)"
    with Cons.IH Cons.prems(1) have "suffix t (xs @ ''}'') \<or> sublist t r" by simp
    then show ?thesis by (auto intro: suffix_ConsI)
  qed
qed

text \<open>Every token occurring in the template ends one of the matches of the scan.\<close>

lemma scan_covers:
  "placeholder_token t \<Longrightarrow> sublist t m \<Longrightarrow> \<exists>f \<in> set (match_placeholders m). suffix t f"
proof (induction m rule: match_placeholders.induct)
  case 1
  then show ?case by (simp add: placeholder_token_def)
next
  case (2 c cs)
  define body where "body = takeWhile (\<lambda>x. x \<noteq> CHR ''}'') cs"
  define rest where "rest = dropWhile (\<lambda>x. x \<noteq> CHR ''}'') cs"
  have cs: "cs = body @ rest" by (simp add: body_def rest_def)
  have nb: "CHR ''}'' \<notin> set body"
    unfolding body_def using set_takeWhileD by fastforce
  from "2.prems"(2) have "prefix t (c # cs) \<or> sublist t cs" by (simp add: sublist_Cons_right)
  then show ?case
  proof
    assume p: "prefix t (c # cs)"
    note h = token_at_head [OF "2.prems"(1) p]
    then have "t \<in> set (match_placeholders (c # cs))" by (simp add: Let_def)
    then show ?thesis by blast
  next
    assume s: "sublist t cs"
    show ?thesis
    proof (cases "c = CHR ''{'' \<and> body \<noteq> [] \<and> rest \<noteq> []")
      case True
      then have hd: "hd rest = CHR ''}''"
        unfolding rest_def using hd_dropWhile [of "\<lambda>x. x \<noteq> CHR ''}''" cs] by auto
      with True have rest: "rest = CHR ''}'' # tl rest" by (cases rest) auto
      have m: "match_placeholders (c # cs)
                 = (CHR ''{'' # body @ ''}'') # match_placeholders (tl rest)"
        using True by (simp add: body_def rest_def Let_def)
      from s cs rest have "sublist t (body @ CHR ''}'' # tl rest)" by simp
      from token_in_match [OF "2.prems"(1) nb this]
      show ?thesis
      proof
        assume "suffix t (body @ ''}'')"
        then have "suffix t (CHR ''{'' # body @ ''}'')" by (rule suffix_ConsI)
        then show ?thesis unfolding m by simp
      next
        assume "sublist t (tl rest)"
        with "2.IH"(1) [OF _ body_def rest_def] True "2.prems"(1)
        have "\<exists>f \<in> set (match_placeholders (tl rest)). suffix t f"
          by (auto simp: body_def rest_def)
        then show ?thesis unfolding m by auto
      qed
    next
      case False
      then have m: "match_placeholders (c # cs) = match_placeholders cs"
        by (auto simp: body_def rest_def Let_def)
      have "\<exists>f \<in> set (match_placeholders cs). suffix t f"
        using False "2.IH"(2) [OF _ body_def rest_def] "2.IH"(3) "2.prems"(1) s
        by (auto simp: body_def rest_def)
      then show ?thesis unfolding m .
    qed
  qed
qed

text \<open>No known placeholder has a brace inside, so no other token ends it.\<close>

lemma known_no_inner:
  assumes "k \<in> set getAvailablePlaceholders" and "placeholder_token t" and "suffix t k"
  shows "t = k"
proof -
  from assms(1) have inner: "CHR ''{'' \<notin> set (tl k)"
    by (auto simp: getAvailablePlaceholders_def)
  from assms(2) obtain body where t: "t = CHR ''{'' # body @ ''}''"
    unfolding placeholder_token_iff by blast
  from assms(3) obtain ps where k: "k = ps @ t" unfolding suffix_def by blast
  show ?thesis
  proof (cases ps)
    case Nil
    with k show ?thesis by simp
  next
    case (Cons p ps')
    with k t have "CHR ''{'' \<in> set (tl k)" by simp
    with inner show ?thesis by simp
  qed
qed

text \<open>
  C9 (as stated): the list of invalid placeholders holds exactly the \<^verbatim>\<open>{...}\<close>
  tokens of the template that are not known. The validator lists the matches of a scan
  that resumes after each match, so a token lying inside a longer match is not listed:
  in \<^verbatim>\<open>{name{bogus}\<close> the token \<^verbatim>\<open>{bogus}\<close> occurs and is not known, and the list
  holds only \<^verbatim>\<open>{name{bogus}\<close>.
\<close>

theorem C9_inner_token_counterexample:
  "placeholder_token ''{bogus}''
   \<and> sublist ''{bogus}'' ''{name{bogus}''
   \<and> ''{bogus}'' \<notin> set getAvailablePlaceholders
   \<and> invalidPlaceholders (validateTemplate ''{name{bogus}'') = [''{name{bogus}'']
   \<and> ''{bogus}'' \<notin> set (invalidPlaceholders (validateTemplate ''{name{bogus}''))"
  by code_simp

text \<open>
  C9 (amended): a token is an opening brace, a non-empty run of characters other than
  the closing brace, and a closing brace. \<^verbatim>\<open>validateTemplate\<close> answers valid exactly
  when its list is empty, and exactly when every token occurring in the template is a
  known placeholder. Every entry of the list is a token that occurs in the template and
  is not known (a known token is never listed). Every unknown token occurring in the
  template is listed, or is the end of a longer listed token that contains it. The
  list holds the unknown matches of the scan in their order of occurrence.
\<close>

theorem C9_validateTemplate:
  "(isValid (validateTemplate m) \<longleftrightarrow> invalidPlaceholders (validateTemplate m) = [])
   \<and> (isValid (validateTemplate m)
        \<longleftrightarrow> (\<forall>t. placeholder_token t \<and> sublist t m \<longrightarrow> t \<in> set getAvailablePlaceholders))
   \<and> (\<forall>t \<in> set (invalidPlaceholders (validateTemplate m)).
         placeholder_token t \<and> sublist t m \<and> t \<notin> set getAvailablePlaceholders)
   \<and> (\<forall>t. placeholder_token t \<and> sublist t m \<and> t \<notin> set getAvailablePlaceholders
         \<longrightarrow> (\<exists>f \<in> set (invalidPlaceholders (validateTemplate m)). suffix t f))
   \<and> invalidPlaceholders (validateTemplate m)
        = filter (\<lambda>t. t \<notin> set getAvailablePlaceholders) (match_placeholders m)"
proof -
  let ?known = "set getAvailablePlaceholders"
  let ?inv = "filter (\<lambda>t. t \<notin> ?known) (match_placeholders m)"
  have inv: "invalidPlaceholders (validateTemplate m) = ?inv"
    and valid: "isValid (validateTemplate m) \<longleftrightarrow> ?inv = []"
    by (simp_all add: validateTemplate_def Let_def)
  have tok: "placeholder_token t \<and> sublist t m" if "t \<in> set (match_placeholders m)" for t
    using match_placeholders_shape [OF that] unfolding placeholder_token_iff by auto
  have listed: "\<exists>f \<in> set ?inv. suffix t f"
    if t: "placeholder_token t" "sublist t m" "t \<notin> ?known" for t
  proof -
    from scan_covers [OF t(1,2)] obtain f where f: "f \<in> set (match_placeholders m)" "suffix t f"
      by blast
    have "f \<notin> ?known"
    proof
      assume "f \<in> ?known"
      from known_no_inner [OF this t(1) f(2)] t(3) \<open>f \<in> ?known\<close> show False by simp
    qed
    with f show ?thesis by auto
  qed
  have all: "?inv = [] \<longleftrightarrow> (\<forall>t. placeholder_token t \<and> sublist t m \<longrightarrow> t \<in> ?known)"
  proof
    assume e: "?inv = []"
    show "\<forall>t. placeholder_token t \<and> sublist t m \<longrightarrow> t \<in> ?known"
    proof (intro allI impI)
      fix t assume t: "placeholder_token t \<and> sublist t m"
      show "t \<in> ?known"
      proof (rule ccontr)
        assume "t \<notin> ?known"
        with listed t e show False by fastforce
      qed
    qed
  next
    assume a: "\<forall>t. placeholder_token t \<and> sublist t m \<longrightarrow> t \<in> ?known"
    with tok have "\<forall>t \<in> set (match_placeholders m). t \<in> ?known" by blast
    then show "?inv = []" by (simp add: filter_empty_conv)
  qed
  have sound: "\<forall>t \<in> set ?inv. placeholder_token t \<and> sublist t m \<and> t \<notin> ?known"
    using tok by auto
  from inv valid all sound listed show ?thesis
    by (simp only: inv) blast
qed

theorem C9_validateTemplate_witness:
  "\<not> isValid (validateTemplate ''Hi {name}, use {code} or {{email}'')
   \<and> invalidPlaceholders (validateTemplate ''Hi {name}, use {code} or {{email}'')
        = [''{code}'', ''{{email}'']
   \<and> placeholder_token ''{code}''
   \<and> sublist ''{code}'' ''Hi {name}, use {code} or {{email}''
   \<and> placeholder_token ''{email}''
   \<and> sublist ''{email}'' ''Hi {name}, use {code} or {{email}''
   \<and> ''{email}'' \<in> set getAvailablePlaceholders
   \<and> isValid (validateTemplate ''Hi {name}, {discount}% off'')
   \<and> invalidPlaceholders (validateTemplate ''Hi {name}, {discount}% off'') = []
   \<and> ''{name}'' \<in> set getAvailablePlaceholders
   \<and> suffix ''{bogus}'' ''{name{bogus}''
   \<and> ''{name{bogus}'' \<in> set (invalidPlaceholders (validateTemplate ''{name{bogus}''))"
proof -
  let ?m = "''Hi {name}, use {code} or {{email}''"
  let ?w = "''Hi {name}, {discount}% off''"
  have v: "invalidPlaceholders (validateTemplate ?m) = [''{code}'', ''{{email}'']"
    by code_simp
  have c: "''{code}'' \<in> set (invalidPlaceholders (validateTemplate ?m))"
    unfolding v by simp
  from C9_validateTemplate [of ?m] c
  have c': "placeholder_token ''{code}'' \<and> sublist ''{code}'' ?m" by blast
  from C9_validateTemplate [of ?m] v have nv: "\<not> isValid (validateTemplate ?m)" by simp
  have e: "placeholder_token ''{email}''" "sublist ''{email}'' ?m"
    "''{email}'' \<in> set getAvailablePlaceholders"
    by code_simp+
  have w: "isValid (validateTemplate ?w)" by code_simp
  with C9_validateTemplate [of ?w]
  have w': "invalidPlaceholders (validateTemplate ?w) = []" by blast
  have n: "placeholder_token ''{name}''" "sublist ''{name}'' ?w" by code_simp+
  with w C9_validateTemplate [of ?w] have n': "''{name}'' \<in> set getAvailablePlaceholders" by blast
  have b: "placeholder_token ''{bogus}''" "sublist ''{bogus}'' ''{name{bogus}''"
    "''{bogus}'' \<notin> set getAvailablePlaceholders"
    "invalidPlaceholders (validateTemplate ''{name{bogus}'') = [''{name{bogus}'']"
    by code_simp+
  from C9_validateTemplate [of "''{name{bogus}''"] b(1,2,3)
  obtain f where f: "f \<in> set (invalidPlaceholders (validateTemplate ''{name{bogus}''))"
    "suffix ''{bogus}'' f"
    by blast
  from f(1) have "f = ''{name{bogus}''" unfolding b(4) by simp
  with f have b': "suffix ''{bogus}'' ''{name{bogus}''"
    "''{name{bogus}'' \<in> set (invalidPlaceholders (validateTemplate ''{name{bogus}''))"
    by simp_all
  from nv v c' e w w' n' b' show ?thesis by blast
qed

section \<open>Queue drain loop and delivery receipts\<close>


lemma find_first_None: "find_first P xs = None \<longleftrightarrow> (\<forall>x \<in> set xs. \<not> P x)"
  by (induction xs) auto



















text \<open>
  The drain loop does not protect a terminal record either. A wake-up reads the QUEUED
  message \<^verbatim>\<open>m-b\<close>; during its processing delay a FAILED receipt for \<^verbatim>\<open>m-b\<close> is
  handled; the write of the wake-up then turns the FAILED sent message and the FAILED
  log into SENT ones.
\<close>

lemma wake_up_overwrites_receipt:
  "processQueue_read \<lparr>isProcessing = False, store = db_queue\<rparr>
     = (\<lparr>isProcessing = True, store = db_queue\<rparr>, Some (1, msg_b))
   \<and> fst (handleDeliveryReceipt 50
         \<lparr>rq_messageId = ''m-b'', rq_status = FAILED, rq_deliveredAt = Instant 40,
          rq_errorMessage = Some ''bounce''\<rparr> db_queue) = Ok200
   \<and> map sm_status (sent_messages (snd (handleDeliveryReceipt 50
         \<lparr>rq_messageId = ''m-b'', rq_status = FAILED, rq_deliveredAt = Instant 40,
          rq_errorMessage = Some ''bounce''\<rparr> db_queue))) = [QUEUED, FAILED]
   \<and> map cl_status (communication_logs (snd (handleDeliveryReceipt 50
         \<lparr>rq_messageId = ''m-b'', rq_status = FAILED, rq_deliveredAt = Instant 40,
          rq_errorMessage = Some ''bounce''\<rparr> db_queue))) = [QUEUED, FAILED]
   \<and> map sm_status (sent_messages (store (processQueue_write clock_96 True 0 (1, msg_b)
         \<lparr>isProcessing = True, store = snd (handleDeliveryReceipt 50
            \<lparr>rq_messageId = ''m-b'', rq_status = FAILED, rq_deliveredAt = Instant 40,
             rq_errorMessage = Some ''bounce''\<rparr> db_queue)\<rparr>))) = [QUEUED, SENT]
   \<and> map cl_status (communication_logs (store (processQueue_write clock_96 True 0 (1, msg_b)
         \<lparr>isProcessing = True, store = snd (handleDeliveryReceipt 50
            \<lparr>rq_messageId = ''m-b'', rq_status = FAILED, rq_deliveredAt = Instant 40,
             rq_errorMessage = Some ''bounce''\<rparr> db_queue)\<rparr>))) = [QUEUED, SENT]"
  by code_simp



section \<open>Statistics\<close>

lemma format_stats_count:
  "format_stats (group_by_status ms) s = length (filter (\<lambda>m. sm_status m = s) ms)"
proof -
  have z: "\<And>t. \<not> (\<exists>m \<in> set ms. sm_status m = t) \<Longrightarrow> length (filter (\<lambda>m. sm_status m = t) ms) = 0"
    by (simp add: filter_empty_conv)
  show ?thesis
    by (cases s) (auto simp: format_stats_def group_by_status_def all_statuses_def z)
qed

lemma getQueueStats_count:
  "getQueueStats d s = length (filter (\<lambda>m. sm_status m = s) (sent_messages d))"
  by (simp add: getQueueStats_def format_stats_count)

lemma status_partition:
  "length (filter (\<lambda>x. P x \<and> f x = SENT) xs) + length (filter (\<lambda>x. P x \<and> f x = FAILED) xs)
   + length (filter (\<lambda>x. P x \<and> f x = PENDING) xs) + length (filter (\<lambda>x. P x \<and> f x = QUEUED) xs)
   = length (filter P xs)"
proof (induction xs)
  case Nil
  then show ?case by simp
next
  case (Cons x xs)
  then show ?case by (cases "f x") auto
qed

lemma getDeliveryStats_owner:
  assumes "filter (\<lambda>m. sm_userId m = uid) (sent_messages d)
             = filter (\<lambda>m. sm_userId m = uid) (sent_messages d')"
  shows "getDeliveryStats uid c d = getDeliveryStats uid c d'"
  using assms by (simp add: getDeliveryStats_def Let_def split: option.splits)

lemma getDeliveryStats_total:
  "ds_total (getDeliveryStats uid c d)
     = ds_stats (getDeliveryStats uid c d) SENT + ds_stats (getDeliveryStats uid c d) FAILED
       + ds_stats (getDeliveryStats uid c d) PENDING + ds_stats (getDeliveryStats uid c d) QUEUED"
  by (simp add: getDeliveryStats_def Let_def all_statuses_def)

lemma countDocuments_owner:
  "countDocuments (\<lambda>l. (A l \<and> cl_userId l = uid) \<and> B l) xs
     = countDocuments (\<lambda>l. A l \<and> B l) (filter (\<lambda>l. cl_userId l = uid) xs)"
  by (induction xs) (auto simp: countDocuments_def)

lemma getCampaignStats_owner:
  assumes "filter (\<lambda>l. cl_userId l = uid) (communication_logs d)
             = filter (\<lambda>l. cl_userId l = uid) (communication_logs d')"
  shows "getCampaignStats cid uid d = getCampaignStats cid uid d'"
proof -
  have t: "countDocuments (\<lambda>l. cl_campaign_id l = Some cid \<and> cl_userId l = uid) xs
             = countDocuments (\<lambda>l. cl_campaign_id l = Some cid \<and> True)
                 (filter (\<lambda>l. cl_userId l = uid) xs)"
    for xs :: "communication_log list"
    using countDocuments_owner [of "\<lambda>l. cl_campaign_id l = Some cid" uid "\<lambda>_. True" xs] by simp
  show ?thesis
    unfolding getCampaignStats_def getCampaignStats_reads_def Let_def
    by (simp only: countDocuments_owner t assms)
qed

text \<open>
  C8 (as stated): the queue statistics seen by one owner depend only on that owner's
  sent messages. \<^verbatim>\<open>getQueueStats\<close> takes no owner and has no filter: with one QUEUED
  message of owner 7 the QUEUED count is 1, and after a QUEUED message of owner 8 is
  added it is 2.
\<close>

theorem C8_queue_stats_counterexample:
  "sm_userId msg_a = 7 \<and> sm_userId msg_b = 8
   \<and> getQueueStats (db_empty\<lparr>sent_messages := [msg_a]\<rparr>) QUEUED = 1
   \<and> getQueueStats (db_empty\<lparr>sent_messages := [msg_a, msg_b]\<rparr>) QUEUED = 2"
  by code_simp

text \<open>
  C8 (amended): \<^verbatim>\<open>getQueueStats\<close> is a count over the whole sent-message store: for
  each status, the number of sent messages of all owners with that status. The reads
  that take an owner, \<^verbatim>\<open>getDeliveryStats\<close> and \<^verbatim>\<open>getCampaignStats\<close>, filter by it:
  their results are the same for two databases in which that owner's records are the
  same, so adding or changing a record of another owner never changes them.
\<close>

theorem C8_stats_scope:
  "getQueueStats d s = length (filter (\<lambda>m. sm_status m = s) (sent_messages d))
   \<and> (filter (\<lambda>m. sm_userId m = uid) (sent_messages d)
          = filter (\<lambda>m. sm_userId m = uid) (sent_messages d')
        \<longrightarrow> getDeliveryStats uid c d = getDeliveryStats uid c d')
   \<and> (sm_userId m \<noteq> uid
        \<longrightarrow> getDeliveryStats uid c (d\<lparr>sent_messages := sent_messages d @ [m]\<rparr>)
            = getDeliveryStats uid c d)
   \<and> (filter (\<lambda>l. cl_userId l = uid) (communication_logs d)
          = filter (\<lambda>l. cl_userId l = uid) (communication_logs d')
        \<longrightarrow> getCampaignStats cid uid d = getCampaignStats cid uid d')"
proof (intro conjI impI)
  show "getQueueStats d s = length (filter (\<lambda>m. sm_status m = s) (sent_messages d))"
    by (rule getQueueStats_count)
next
  assume "filter (\<lambda>m. sm_userId m = uid) (sent_messages d)
            = filter (\<lambda>m. sm_userId m = uid) (sent_messages d')"
  then show "getDeliveryStats uid c d = getDeliveryStats uid c d'"
    by (rule getDeliveryStats_owner)
next
  assume "sm_userId m \<noteq> uid"
  then show "getDeliveryStats uid c (d\<lparr>sent_messages := sent_messages d @ [m]\<rparr>)
               = getDeliveryStats uid c d"
    by (intro getDeliveryStats_owner) simp
next
  assume "filter (\<lambda>l. cl_userId l = uid) (communication_logs d)
            = filter (\<lambda>l. cl_userId l = uid) (communication_logs d')"
  then show "getCampaignStats cid uid d = getCampaignStats cid uid d'"
    by (rule getCampaignStats_owner)
qed

theorem C8_stats_scope_witness:
  "filter (\<lambda>m. sm_userId m = 7) (sent_messages (db_empty\<lparr>sent_messages := [msg_a]\<rparr>))
     = filter (\<lambda>m. sm_userId m = 7) (sent_messages db_queue)
   \<and> getDeliveryStats 7 None (db_empty\<lparr>sent_messages := [msg_a]\<rparr>)
       = getDeliveryStats 7 None db_queue
   \<and> sm_userId msg_b \<noteq> 7
   \<and> getDeliveryStats 7 None (db_empty\<lparr>sent_messages := sent_messages db_empty @ [msg_b]\<rparr>)
       = getDeliveryStats 7 None db_empty
   \<and> filter (\<lambda>l. cl_userId l = 7) (communication_logs (db_empty\<lparr>communication_logs := [log_a]\<rparr>))
     = filter (\<lambda>l. cl_userId l = 7) (communication_logs db_queue)
   \<and> getCampaignStats 0 7 (db_empty\<lparr>communication_logs := [log_a]\<rparr>)
       = getCampaignStats 0 7 db_queue
   \<and> getQueueStats db_queue QUEUED = 2"
proof -
  have a: "filter (\<lambda>m. sm_userId m = 7) (sent_messages (db_empty\<lparr>sent_messages := [msg_a]\<rparr>))
             = filter (\<lambda>m. sm_userId m = 7) (sent_messages db_queue)"
    "sm_userId msg_b \<noteq> 7"
    "filter (\<lambda>l. cl_userId l = 7) (communication_logs (db_empty\<lparr>communication_logs := [log_a]\<rparr>))
       = filter (\<lambda>l. cl_userId l = 7) (communication_logs db_queue)"
    by (simp_all add: db_queue_def msg_a_def msg_b_def log_a_def log_b_def)
  have q: "length (filter (\<lambda>m. sm_status m = QUEUED) (sent_messages db_queue)) = 2"
    by (simp add: db_queue_def msg_a_def msg_b_def)
  show ?thesis
    using C8_stats_scope [of db_queue QUEUED 7 "db_empty\<lparr>sent_messages := [msg_a]\<rparr>" None msg_b 0]
          C8_stats_scope [of db_empty QUEUED 7 db_empty None msg_b 0]
          C8_stats_scope [of "db_empty\<lparr>communication_logs := [log_a]\<rparr>" QUEUED 7 db_queue None msg_b 0]
          a q
    by simp
qed

subsection \<open>Rounding error of the floating-point operations\<close>

lemma bit_length_bounds:
  "0 < n \<Longrightarrow> 2 ^ (bit_length n - 1) \<le> n \<and> n < 2 ^ bit_length n"
proof (induction n rule: bit_length.induct)
  case (1 n)
  show ?case
  proof (cases "n = 1")
    case True
    then show ?thesis by simp
  next
    case False
    with "1.prems" have h: "0 < n div 2" by simp
    with "1.prems" have IH: "2 ^ (bit_length (n div 2) - 1) \<le> n div 2 \<and> n div 2 < 2 ^ bit_length (n div 2)"
      using "1.IH" by simp
    from h have pos: "0 < bit_length (n div 2)" by simp
    have b: "bit_length n = Suc (bit_length (n div 2))" using "1.prems" by simp
    from pos have e: "(2::int) ^ bit_length (n div 2) = 2 * 2 ^ (bit_length (n div 2) - 1)"
      by (cases "bit_length (n div 2)") simp_all
    from IH have "2 * 2 ^ (bit_length (n div 2) - 1) \<le> n" by linarith
    moreover from IH have "n < 2 * 2 ^ bit_length (n div 2)" by linarith
    ultimately show ?thesis unfolding b using e by simp
  qed
qed

lemma pow2_pos: "0 < pow2 e"
  by (simp add: pow2_def)

lemma pow2_diff: "pow2 (a - int n) = pow2 a / 2 ^ n"
proof -
  have p: "pow2 e = 2 powi e" for e
    by (simp add: pow2_def power_int_def field_simps)
  show ?thesis unfolding p by (simp add: power_int_diff)
qed

lemma exponent_of_le:
  assumes "0 < x"
  shows "pow2 (exponent_of x) \<le> x"
proof -
  obtain p q where pq: "quotient_of x = (p, q)" by (cases "quotient_of x") auto
  then have x: "x = of_int p / of_int q" and q: "0 < q"
    using quotient_of_div quotient_of_denom_pos by blast+
  with assms have p: "0 < p" by (simp add: zero_less_divide_iff)
  define e where "e = int (bit_length p) - int (bit_length q)"
  show ?thesis
  proof (cases "pow2 e \<le> x")
    case True
    then show ?thesis by (simp add: exponent_of_def pq e_def Let_def)
  next
    case False
    then have ex: "exponent_of x = e - 1" by (simp add: exponent_of_def pq e_def Let_def)
    from bit_length_bounds [OF p] have lo: "2 ^ (bit_length p - 1) \<le> p" by blast
    from bit_length_bounds [OF q] have hi: "q < 2 ^ bit_length q" by blast
    from p have bp: "0 < bit_length p" by simp
    then have "e - 1 = int (bit_length p - 1) - int (bit_length q)"
      by (simp add: e_def)
    then have "pow2 (e - 1) = pow2 (int (bit_length p - 1)) / 2 ^ bit_length q"
      by (simp add: pow2_diff)
    also have "\<dots> = 2 ^ (bit_length p - 1) / 2 ^ bit_length q"
      by (simp add: pow2_def)
    also have "\<dots> \<le> of_int p / 2 ^ bit_length q"
    proof -
      have "(2::rat) ^ (bit_length p - 1) \<le> of_int p"
        using lo by (metis of_int_le_iff of_int_numeral of_int_power)
      then show ?thesis by (simp add: divide_right_mono)
    qed
    also have "\<dots> \<le> of_int p / of_int q"
    proof -
      have "(of_int q :: rat) \<le> 2 ^ bit_length q"
        using hi by (metis less_imp_le of_int_le_iff of_int_numeral of_int_power)
      moreover have "(0::rat) < of_int q" "(0::rat) \<le> of_int p" using q p by simp_all
      ultimately show ?thesis by (simp add: divide_left_mono)
    qed
    finally show ?thesis using ex x by simp
  qed
qed

lemma round_half_even_close: "\<bar>of_int (round_half_even m) - m\<bar> \<le> 1 / 2"
proof -
  have "of_int \<lfloor>m\<rfloor> \<le> m" "m < of_int \<lfloor>m\<rfloor> + 1" by linarith+
  then show ?thesis
    unfolding round_half_even_def Let_def by (auto simp: abs_le_iff)
qed

lemma to_double_close:
  assumes "0 \<le> x"
  shows "\<bar>to_double x - x\<bar> \<le> x / 9007199254740992"
proof (cases "x = 0")
  case True
  then show ?thesis by (simp add: to_double_def)
next
  case False
  with assms have x: "0 < x" by simp
  define ulp where "ulp = pow2 (exponent_of x - 52)"
  define r where "r = round_half_even (x / ulp)"
  have u: "0 < ulp" by (simp add: ulp_def pow2_pos)
  have td: "to_double x = of_int r * ulp"
    using x by (simp add: to_double_def Let_def ulp_def r_def)
  have "ulp = pow2 (exponent_of x) / 2 ^ 52"
    unfolding ulp_def using pow2_diff [of "exponent_of x" 52] by simp
  with exponent_of_le [OF x] have ux: "ulp \<le> x / 4503599627370496"
    by (simp add: divide_right_mono)
  have "\<bar>of_int r - x / ulp\<bar> \<le> 1 / 2" unfolding r_def by (rule round_half_even_close)
  then have "\<bar>of_int r - x / ulp\<bar> * ulp \<le> 1 / 2 * ulp"
    using u by (simp add: mult_right_mono)
  moreover have "\<bar>of_int r - x / ulp\<bar> * ulp = \<bar>of_int r * ulp - x\<bar>"
  proof -
    have "\<bar>of_int r - x / ulp\<bar> * ulp = \<bar>(of_int r - x / ulp) * ulp\<bar>"
      using u by (simp add: abs_mult)
    also have "(of_int r - x / ulp) * ulp = of_int r * ulp - x"
      using u by (simp add: field_simps)
    finally show ?thesis .
  qed
  ultimately have "\<bar>of_int r * ulp - x\<bar> \<le> ulp / 2" by simp
  with ux show ?thesis unfolding td by linarith
qed

lemma to_double_nonneg:
  assumes "0 \<le> x"
  shows "0 \<le> to_double x"
proof -
  from assms have "x / 9007199254740992 \<le> x" by simp
  with to_double_close [OF assms] show ?thesis by linarith
qed

lemma hundredths_close:
  assumes "0 \<le> x" and "x \<le> 1"
  shows "\<bar>js_times (js_times (to_double x) 100) 100 - x * 10000\<bar> \<le> 1 / 1000000"
proof -
  define a where "a = to_double x"
  define b where "b = to_double (a * 100)"
  define c where "c = to_double (b * 100)"
  have a0: "0 \<le> a" unfolding a_def using assms(1) by (rule to_double_nonneg)
  then have b0: "0 \<le> b" unfolding b_def by (intro to_double_nonneg) simp
  have ea: "\<bar>a - x\<bar> \<le> x / 9007199254740992"
    unfolding a_def using assms(1) by (rule to_double_close)
  have eb: "\<bar>b - a * 100\<bar> \<le> a * 100 / 9007199254740992"
    unfolding b_def using a0 by (intro to_double_close) simp
  have ec: "\<bar>c - b * 100\<bar> \<le> b * 100 / 9007199254740992"
    unfolding c_def using b0 by (intro to_double_close) simp
  from ea eb ec assms have "\<bar>c - x * 10000\<bar> \<le> 1 / 1000000" by linarith
  then show ?thesis by (simp add: js_times_def a_def b_def c_def)
qed

lemma rate_close:
  assumes "0 \<le> x" and "x \<le> 1"
  shows "\<bar>js_times (to_double x) 100 - x * 100\<bar> \<le> 1 / 100000000"
proof -
  define a where "a = to_double x"
  define b where "b = to_double (a * 100)"
  have a0: "0 \<le> a" unfolding a_def using assms(1) by (rule to_double_nonneg)
  have ea: "\<bar>a - x\<bar> \<le> x / 9007199254740992"
    unfolding a_def using assms(1) by (rule to_double_close)
  have eb: "\<bar>b - a * 100\<bar> \<le> a * 100 / 9007199254740992"
    unfolding b_def using a0 by (intro to_double_close) simp
  from ea eb assms have "\<bar>b - x * 100\<bar> \<le> 1 / 100000000" by linarith
  then show ?thesis by (simp add: js_times_def a_def b_def)
qed

lemma quotient_unit:
  fixes s t :: nat
  assumes "0 < t" and "s \<le> t"
  shows "(0::rat) \<le> of_nat s / of_nat t" and "(of_nat s / of_nat t :: rat) \<le> 1"
  using assms by simp_all

text \<open>
  The hundredths that \<^verbatim>\<open>Math.round(rate * 100)\<close> finds for the rate of \<open>s\<close> out of
  \<open>t\<close> are within one half, and a rounding error, of the exact \<open>s / t * 10000\<close>.
\<close>

lemma round_hundredths:
  fixes s t :: nat
  assumes "0 < t" and "s \<le> t"
  shows "\<bar>of_int (Math_round (js_times (js_times (js_divide (of_nat s) (of_nat t)) 100) 100))
           - (of_nat s / of_nat t * 10000 :: rat)\<bar> \<le> 1 / 2 + 1 / 1000000"
    and "0 \<le> Math_round (js_times (js_times (js_divide (of_nat s) (of_nat t)) 100) 100)"
proof -
  define c where "c = js_times (js_times (to_double (of_nat s / of_nat t)) 100) 100"
  have e: "\<bar>c - of_nat s / of_nat t * 10000\<bar> \<le> 1 / 1000000"
    unfolding c_def using quotient_unit [OF assms] by (rule hundredths_close)
  have f: "of_int \<lfloor>c + 1 / 2\<rfloor> \<le> c + 1 / 2" "c + 1 / 2 < of_int \<lfloor>c + 1 / 2\<rfloor> + 1"
    by linarith+
  from e f show "\<bar>of_int (Math_round (js_times (js_times (js_divide (of_nat s) (of_nat t)) 100) 100))
           - (of_nat s / of_nat t * 10000 :: rat)\<bar> \<le> 1 / 2 + 1 / 1000000"
    unfolding Math_round_def js_divide_def c_def [symmetric] by linarith
  have "0 \<le> of_nat s / of_nat t * (10000::rat)" using quotient_unit(1) [OF assms] by simp
  with e have "0 \<le> c + 1 / 2" by linarith
  then show "0 \<le> Math_round (js_times (js_times (js_divide (of_nat s) (of_nat t)) 100) 100)"
    unfolding Math_round_def js_divide_def c_def [symmetric] by simp
qed

lemma fixed_hundredths:
  fixes s t :: nat
  assumes "0 < t" and "s \<le> t"
  shows "\<bar>toFixed2 (js_times (js_divide (of_nat s) (of_nat t)) 100) * 100
           - (of_nat s / of_nat t * 10000 :: rat)\<bar> \<le> 1 / 2 + 1 / 1000000"
proof -
  define x :: rat where "x = of_nat s / of_nat t"
  define b where "b = js_times (to_double x) 100"
  define n where "n = \<lfloor>b * 100 + 1 / 2\<rfloor>"
  have e: "\<bar>b - x * 100\<bar> \<le> 1 / 100000000"
    unfolding b_def x_def using quotient_unit [OF assms] by (rule rate_close)
  have f: "of_int n \<le> b * 100 + 1 / 2" "b * 100 + 1 / 2 < of_int n + 1"
    unfolding n_def by linarith+
  have "toFixed2 (js_times (js_divide (of_nat s) (of_nat t)) 100) * 100 = of_int n"
    by (simp add: toFixed2_def js_divide_def n_def b_def x_def)
  moreover from e f have "\<bar>of_int n - x * 10000\<bar> \<le> 1 / 2 + 1 / 1000000" by linarith
  ultimately show ?thesis unfolding x_def by simp
qed

lemma count_in_campaign:
  "countDocuments (\<lambda>l. cl_campaign_id l = Some cid \<and> cl_userId l = uid \<and> P l) (communication_logs d)
     = length (filter P (campaign_logs cid uid d))"
  "countDocuments (\<lambda>l. cl_campaign_id l = Some cid \<and> cl_userId l = uid) (communication_logs d)
     = length (campaign_logs cid uid d)"
  by (simp_all add: countDocuments_def campaign_logs_def conj_commute conj_left_commute)

lemma status_split:
  "length (filter (\<lambda>x. f x = SENT) xs) + length (filter (\<lambda>x. f x = FAILED) xs)
   + length (filter (\<lambda>x. f x = PENDING) xs) + length (filter (\<lambda>x. f x = QUEUED) xs)
   = length xs"
  using status_partition [of "\<lambda>_. True" f xs] by simp

lemma round2_zero: "round2 0 = 0"
  by code_simp

lemma int_from_rat_bounds:
  fixes n :: int
  shows "(of_int n :: rat) < 10002 \<Longrightarrow> n \<le> 10001"
    and "(9998 :: rat) < of_int n \<Longrightarrow> 9999 \<le> n"
proof -
  assume "(of_int n :: rat) < 10002"
  then have "(of_int n :: rat) < of_int 10002" by simp
  then have "n < 10002" by (simp only: of_int_less_iff)
  then show "n \<le> 10001" by simp
next
  assume "(9998 :: rat) < of_int n"
  then have "(of_int 9998 :: rat) < of_int n" by simp
  then have "9998 < n" by (simp only: of_int_less_iff)
  then show "9999 \<le> n" by simp
qed

lemma two_rates:
  fixes s f t :: nat and ns nf :: int
  assumes t: "0 < t" and le: "s + f \<le> t"
    and ns: "\<bar>of_int ns - (of_nat s / of_nat t * 10000 :: rat)\<bar> \<le> 1 / 2 + 1 / 1000000"
    and nf: "\<bar>of_int nf - (of_nat f / of_nat t * 10000 :: rat)\<bar> \<le> 1 / 2 + 1 / 1000000"
  shows "ns + nf \<le> 10001" and "s + f = t \<Longrightarrow> 9999 \<le> ns + nf"
proof -
  define x :: rat where "x = of_nat s / of_nat t"
  define y :: rat where "y = of_nat f / of_nat t"
  have sum: "x + y = of_nat (s + f) / of_nat t"
    by (simp add: x_def y_def add_divide_distrib)
  from le have "(of_nat (s + f) :: rat) \<le> of_nat t" by (simp only: of_nat_le_iff)
  with t have "(of_nat (s + f) :: rat) / of_nat t \<le> 1" by simp
  with sum have le1: "x + y \<le> 1" by simp
  have a: "\<bar>of_int ns - x * 10000\<bar> \<le> 1 / 2 + 1 / 1000000"
    and b: "\<bar>of_int nf - y * 10000\<bar> \<le> 1 / 2 + 1 / 1000000"
    using ns nf by (simp_all only: x_def y_def)
  from a b le1 have "of_int ns + of_int nf < (10002 :: rat)" by linarith
  then have "(of_int (ns + nf) :: rat) < 10002" by simp
  then show "ns + nf \<le> 10001" by (rule int_from_rat_bounds)
  assume "s + f = t"
  with t sum have "x + y = 1" by simp
  with a b have "(9998 :: rat) < of_int ns + of_int nf" by linarith
  then have "(9998 :: rat) < of_int (ns + nf)" by simp
  then show "9999 \<le> ns + nf" by (rule int_from_rat_bounds)
qed

text \<open>
  C5 (as stated): the four status counts add up to the total, the two rates are the
  rounded quotients, and the rates add up to at most 100, with equality exactly when no
  record is pending or queued. The last part fails in two ways. With 1 SENT and 31
  FAILED logs the rates before rounding are 3.125 and 96.875, both exact in floating
  point; each is rounded up, to the doubles nearest to 3.13 and 96.88, and their sum is
  above 100. With no log at all nothing is pending or queued and the sum is 0, not 100.
\<close>

theorem C5_rates_sum_counterexample:
  "getCampaignStats 0 7
     (db_empty\<lparr>communication_logs :=
                 replicate 31 (log_a\<lparr>cl_status := FAILED\<rparr>) @ [log_a\<lparr>cl_status := SENT\<rparr>]\<rparr>)
     = \<lparr>total = 32, sent = 1, failed = 31, pending = 0, queued = 0, deliveryRate = 100,
        successRate = to_double (313 / 100), failureRate = to_double (9688 / 100)\<rparr>
   \<and> to_double (313 / 100) + to_double (9688 / 100) > 100
   \<and> getCampaignStats 0 7 db_empty
     = \<lparr>total = 0, sent = 0, failed = 0, pending = 0, queued = 0, deliveryRate = 0,
        successRate = 0, failureRate = 0\<rparr>"
  by code_simp

text \<open>
  The five counts are five reads. When a log of the campaign is written between two of
  them the counts need not add up: here the total is counted on an empty store and the
  other four after a SENT log has arrived.
\<close>

lemma counts_torn_by_write:
  "getCampaignStats_reads 0 7 db_empty
     (db_empty\<lparr>communication_logs := [log_a\<lparr>cl_status := SENT\<rparr>]\<rparr>)
     (db_empty\<lparr>communication_logs := [log_a\<lparr>cl_status := SENT\<rparr>]\<rparr>)
     (db_empty\<lparr>communication_logs := [log_a\<lparr>cl_status := SENT\<rparr>]\<rparr>)
     (db_empty\<lparr>communication_logs := [log_a\<lparr>cl_status := SENT\<rparr>]\<rparr>)
     = \<lparr>total = 0, sent = 1, failed = 0, pending = 0, queued = 0, deliveryRate = 0,
        successRate = 0, failureRate = 0\<rparr>"
  by code_simp

text \<open>
  C5 (amended): when no log of the campaign is written between the five counts of the
  handler, the counts of sent, failed, pending and queued add up to the total. With a
  total of 0 the success rate and the failure rate are 0. With a positive total each
  of the two rates is the double nearest to a whole number of hundredths; that number
  is not negative and lies within one half, and a floating-point error below one
  millionth, of the exact \<^verbatim>\<open>sent/total*10000\<close> (\<^verbatim>\<open>failed/total*10000\<close>); the two
  numbers add up to at most 10001, that is, the rounded rates to at most 100.01; and
  when nothing is pending or queued they add up to at least 9999. The delivery
  statistics of an owner have the sum of the four counts as their total; their success
  rate is 0 for a total of 0 and otherwise a number of hundredths within the same
  distance of the exact \<^verbatim>\<open>SENT/total*10000\<close>.
\<close>

theorem C5_statistics:
  assumes r: "r = getCampaignStats_reads cid uid d1 d2 d3 d4 d5"
    and quiet: "campaign_logs cid uid d2 = campaign_logs cid uid d1"
      "campaign_logs cid uid d3 = campaign_logs cid uid d1"
      "campaign_logs cid uid d4 = campaign_logs cid uid d1"
      "campaign_logs cid uid d5 = campaign_logs cid uid d1"
    and g: "g = getDeliveryStats uid c d"
  shows "sent r + failed r + pending r + queued r = total r
   \<and> (total r = 0 \<longrightarrow> successRate r = 0 \<and> failureRate r = 0)
   \<and> (0 < total r \<longrightarrow>
        (\<exists>ns nf :: int.
            successRate r = to_double (of_int ns / 100)
          \<and> failureRate r = to_double (of_int nf / 100)
          \<and> 0 \<le> ns \<and> 0 \<le> nf
          \<and> \<bar>of_int ns - (of_nat (sent r) / of_nat (total r) * 10000 :: rat)\<bar>
               \<le> 1 / 2 + 1 / 1000000
          \<and> \<bar>of_int nf - (of_nat (failed r) / of_nat (total r) * 10000 :: rat)\<bar>
               \<le> 1 / 2 + 1 / 1000000
          \<and> ns + nf \<le> 10001
          \<and> (pending r = 0 \<and> queued r = 0 \<longrightarrow> 9999 \<le> ns + nf)))
   \<and> ds_total g = ds_stats g SENT + ds_stats g FAILED + ds_stats g PENDING + ds_stats g QUEUED
   \<and> (ds_total g = 0 \<longrightarrow> ds_successRate g = 0)
   \<and> (0 < ds_total g \<longrightarrow>
        \<bar>ds_successRate g * 100 - (of_nat (ds_stats g SENT) / of_nat (ds_total g) * 10000 :: rat)\<bar>
          \<le> 1 / 2 + 1 / 1000000)"
proof -
  define logs where "logs = campaign_logs cid uid d1"
  have counts: "total r = length logs"
    "sent r = length (filter (\<lambda>l. cl_status l = SENT) logs)"
    "failed r = length (filter (\<lambda>l. cl_status l = FAILED) logs)"
    "pending r = length (filter (\<lambda>l. cl_status l = PENDING) logs)"
    "queued r = length (filter (\<lambda>l. cl_status l = QUEUED) logs)"
    unfolding r getCampaignStats_reads_def Let_def logs_def
    by (simp_all add: count_in_campaign quiet)
  have sum: "sent r + failed r + pending r + queued r = total r"
    unfolding counts by (rule status_split)
  have sr: "successRate r = (if 0 < total r
              then round2 (js_times (js_divide (of_nat (sent r)) (of_nat (total r))) 100) else 0)"
    and fr: "failureRate r = (if 0 < total r
              then round2 (js_times (js_divide (of_nat (failed r)) (of_nat (total r))) 100) else 0)"
    unfolding r getCampaignStats_reads_def Let_def by (simp_all add: round2_zero)
  have zero: "total r = 0 \<longrightarrow> successRate r = 0 \<and> failureRate r = 0"
    using sr fr by simp
  have rates: "0 < total r \<longrightarrow>
        (\<exists>ns nf :: int.
            successRate r = to_double (of_int ns / 100)
          \<and> failureRate r = to_double (of_int nf / 100)
          \<and> 0 \<le> ns \<and> 0 \<le> nf
          \<and> \<bar>of_int ns - (of_nat (sent r) / of_nat (total r) * 10000 :: rat)\<bar>
               \<le> 1 / 2 + 1 / 1000000
          \<and> \<bar>of_int nf - (of_nat (failed r) / of_nat (total r) * 10000 :: rat)\<bar>
               \<le> 1 / 2 + 1 / 1000000
          \<and> ns + nf \<le> 10001
          \<and> (pending r = 0 \<and> queued r = 0 \<longrightarrow> 9999 \<le> ns + nf))"
  proof
    assume pos: "0 < total r"
    define ns where "ns = Math_round (js_times (js_times (js_divide (of_nat (sent r)) (of_nat (total r))) 100) 100)"
    define nf where "nf = Math_round (js_times (js_times (js_divide (of_nat (failed r)) (of_nat (total r))) 100) 100)"
    from sum have les: "sent r \<le> total r" and lef: "failed r \<le> total r"
      and le: "sent r + failed r \<le> total r"
      by simp_all
    note hs = round_hundredths [OF pos les, folded ns_def]
    note hf = round_hundredths [OF pos lef, folded nf_def]
    have s: "successRate r = to_double (of_int ns / 100)"
      using pos by (simp add: sr round2_def js_divide_def ns_def)
    have f: "failureRate r = to_double (of_int nf / 100)"
      using pos by (simp add: fr round2_def js_divide_def nf_def)
    note both = two_rates [OF pos le hs(1) hf(1)]
    have low: "pending r = 0 \<and> queued r = 0 \<longrightarrow> 9999 \<le> ns + nf"
    proof
      assume "pending r = 0 \<and> queued r = 0"
      with sum have "sent r + failed r = total r" by simp
      then show "9999 \<le> ns + nf" by (rule both(2))
    qed
    from s f hs hf both(1) low
    show "\<exists>ns nf :: int.
            successRate r = to_double (of_int ns / 100)
          \<and> failureRate r = to_double (of_int nf / 100)
          \<and> 0 \<le> ns \<and> 0 \<le> nf
          \<and> \<bar>of_int ns - (of_nat (sent r) / of_nat (total r) * 10000 :: rat)\<bar>
               \<le> 1 / 2 + 1 / 1000000
          \<and> \<bar>of_int nf - (of_nat (failed r) / of_nat (total r) * 10000 :: rat)\<bar>
               \<le> 1 / 2 + 1 / 1000000
          \<and> ns + nf \<le> 10001
          \<and> (pending r = 0 \<and> queued r = 0 \<longrightarrow> 9999 \<le> ns + nf)"
      by blast
  qed
  have dt: "ds_total g = ds_stats g SENT + ds_stats g FAILED + ds_stats g PENDING + ds_stats g QUEUED"
    unfolding g by (rule getDeliveryStats_total)
  have dr: "ds_successRate g
       = (if 0 < ds_total g
          then toFixed2 (js_times (js_divide (of_nat (ds_stats g SENT)) (of_nat (ds_total g))) 100)
          else 0)"
    unfolding g getDeliveryStats_def Let_def by simp
  have dz: "ds_total g = 0 \<longrightarrow> ds_successRate g = 0"
    using dr by simp
  have dp: "0 < ds_total g \<longrightarrow>
        \<bar>ds_successRate g * 100 - (of_nat (ds_stats g SENT) / of_nat (ds_total g) * 10000 :: rat)\<bar>
          \<le> 1 / 2 + 1 / 1000000"
  proof
    assume pos: "0 < ds_total g"
    from dt have "ds_stats g SENT \<le> ds_total g" by simp
    from fixed_hundredths [OF pos this] dr pos
    show "\<bar>ds_successRate g * 100 - (of_nat (ds_stats g SENT) / of_nat (ds_total g) * 10000 :: rat)\<bar>
          \<le> 1 / 2 + 1 / 1000000"
      by simp
  qed
  from sum zero rates dt dz dp show ?thesis by blast
qed

theorem C5_statistics_witness:
  "getCampaignStats_reads 0 7
     (db_queue\<lparr>communication_logs :=
        [log_a\<lparr>cl_status := SENT\<rparr>, log_a\<lparr>cl_status := FAILED\<rparr>, log_a, log_b,
         log_a\<lparr>cl_status := SENT\<rparr>, log_a\<lparr>cl_status := PENDING\<rparr>, log_a\<lparr>cl_status := SENT\<rparr>]\<rparr>)
     (db_queue\<lparr>communication_logs :=
        [log_a\<lparr>cl_status := SENT\<rparr>, log_a\<lparr>cl_status := FAILED\<rparr>, log_a, log_b,
         log_a\<lparr>cl_status := SENT\<rparr>, log_a\<lparr>cl_status := PENDING\<rparr>, log_a\<lparr>cl_status := SENT\<rparr>,
         log_b\<lparr>cl_status := SENT\<rparr>]\<rparr>)
     (db_queue\<lparr>communication_logs :=
        [log_a\<lparr>cl_status := SENT\<rparr>, log_a\<lparr>cl_status := FAILED\<rparr>, log_a, log_b,
         log_a\<lparr>cl_status := SENT\<rparr>, log_a\<lparr>cl_status := PENDING\<rparr>, log_a\<lparr>cl_status := SENT\<rparr>]\<rparr>)
     (db_queue\<lparr>communication_logs :=
        [log_a\<lparr>cl_status := SENT\<rparr>, log_a\<lparr>cl_status := FAILED\<rparr>, log_a, log_b,
         log_a\<lparr>cl_status := SENT\<rparr>, log_a\<lparr>cl_status := PENDING\<rparr>, log_a\<lparr>cl_status := SENT\<rparr>]\<rparr>)
     (db_queue\<lparr>communication_logs :=
        [log_a\<lparr>cl_status := SENT\<rparr>, log_a\<lparr>cl_status := FAILED\<rparr>, log_a, log_b,
         log_a\<lparr>cl_status := SENT\<rparr>, log_a\<lparr>cl_status := PENDING\<rparr>, log_a\<lparr>cl_status := SENT\<rparr>]\<rparr>)
     = \<lparr>total = 6, sent = 3, failed = 1, pending = 1, queued = 1,
        deliveryRate = to_double (6667 / 100), successRate = 50,
        failureRate = to_double (1667 / 100)\<rparr>
   \<and> (3::nat) + 1 + 1 + 1 = 6
   \<and> (\<exists>ns nf :: int. (50::rat) = to_double (of_int ns / 100)
          \<and> to_double (1667 / 100) = to_double (of_int nf / 100)
          \<and> \<bar>of_int ns - (of_nat 3 / of_nat 6 * 10000 :: rat)\<bar> \<le> 1 / 2 + 1 / 1000000
          \<and> \<bar>of_int nf - (of_nat 1 / of_nat 6 * 10000 :: rat)\<bar> \<le> 1 / 2 + 1 / 1000000
          \<and> ns + nf \<le> 10001)
   \<and> (\<exists>ns nf :: int. to_double (313 / 100) = to_double (of_int ns / 100)
          \<and> to_double (9688 / 100) = to_double (of_int nf / 100)
          \<and> 9999 \<le> ns + nf \<and> ns + nf \<le> 10001)
   \<and> successRate (getCampaignStats_reads 0 7 db_empty db_empty db_empty db_empty db_empty) = 0
   \<and> failureRate (getCampaignStats_reads 0 7 db_empty db_empty db_empty db_empty db_empty) = 0
   \<and> ds_total (getDeliveryStats 7 None db_queue) = 1
   \<and> \<bar>ds_successRate (getDeliveryStats 7 None db_queue) * 100
        - (of_nat 0 / of_nat 1 * 10000 :: rat)\<bar> \<le> 1 / 2 + 1 / 1000000
   \<and> ds_successRate (getDeliveryStats 7 None db_empty) = 0"
proof -
  define d where "d = db_queue\<lparr>communication_logs :=
        [log_a\<lparr>cl_status := SENT\<rparr>, log_a\<lparr>cl_status := FAILED\<rparr>, log_a, log_b,
         log_a\<lparr>cl_status := SENT\<rparr>, log_a\<lparr>cl_status := PENDING\<rparr>, log_a\<lparr>cl_status := SENT\<rparr>]\<rparr>"
  define d' where "d' = db_queue\<lparr>communication_logs :=
        [log_a\<lparr>cl_status := SENT\<rparr>, log_a\<lparr>cl_status := FAILED\<rparr>, log_a, log_b,
         log_a\<lparr>cl_status := SENT\<rparr>, log_a\<lparr>cl_status := PENDING\<rparr>, log_a\<lparr>cl_status := SENT\<rparr>,
         log_b\<lparr>cl_status := SENT\<rparr>]\<rparr>"
  define d32 where "d32 = db_empty\<lparr>communication_logs :=
                 replicate 31 (log_a\<lparr>cl_status := FAILED\<rparr>) @ [log_a\<lparr>cl_status := SENT\<rparr>]\<rparr>"
  define r6 where "r6 = \<lparr>total = 6, sent = 3, failed = 1, pending = 1, queued = 1,
        deliveryRate = to_double (6667 / 100), successRate = 50,
        failureRate = to_double (1667 / 100)\<rparr>"
  define r32 where "r32 = \<lparr>total = 32, sent = 1, failed = 31, pending = 0, queued = 0,
        deliveryRate = 100, successRate = to_double (313 / 100),
        failureRate = to_double (9688 / 100)\<rparr>"
  have e6: "r6 = getCampaignStats_reads 0 7 d d' d d d"
    unfolding r6_def d_def d'_def by code_simp
  have q6: "campaign_logs 0 7 d' = campaign_logs 0 7 d"
    unfolding d_def d'_def by code_simp
  have e32: "r32 = getCampaignStats_reads 0 7 d32 d32 d32 d32 d32"
    unfolding r32_def d32_def by code_simp
  have g1: "ds_total (getDeliveryStats 7 None db_queue) = 1"
    "ds_stats (getDeliveryStats 7 None db_queue) SENT = 0"
    "ds_total (getDeliveryStats 7 None db_empty) = 0"
    by code_simp+
  have f6: "total r6 = 6" "sent r6 = 3" "failed r6 = 1" "pending r6 = 1" "queued r6 = 1"
    "successRate r6 = 50" "failureRate r6 = to_double (1667 / 100)"
    by (simp_all add: r6_def)
  have f32: "total r32 = 32" "pending r32 = 0" "queued r32 = 0"
    "successRate r32 = to_double (313 / 100)" "failureRate r32 = to_double (9688 / 100)"
    by (simp_all add: r32_def)
  note t6 = C5_statistics [where c = None and d = db_queue, OF e6 q6 refl refl refl refl]
  note t32 = C5_statistics [where c = None and d = db_empty, OF e32 refl refl refl refl refl]
  note t0 = C5_statistics [where cid = 0 and uid = 7 and ?d1.0 = db_empty and c = None
              and d = db_empty, OF refl refl refl refl refl refl]
  from t6 have a1: "sent r6 + failed r6 + pending r6 + queued r6 = total r6" by blast
  then have a: "(3::nat) + 1 + 1 + 1 = 6" unfolding f6 .
  have p6: "0 < total r6" by (simp add: f6)
  with t6 obtain ns nf :: int where n6: "successRate r6 = to_double (of_int ns / 100)"
      "failureRate r6 = to_double (of_int nf / 100)"
      "\<bar>of_int ns - (of_nat (sent r6) / of_nat (total r6) * 10000 :: rat)\<bar> \<le> 1 / 2 + 1 / 1000000"
      "\<bar>of_int nf - (of_nat (failed r6) / of_nat (total r6) * 10000 :: rat)\<bar> \<le> 1 / 2 + 1 / 1000000"
      "ns + nf \<le> 10001"
    by blast
  then have b: "\<exists>ns nf :: int. (50::rat) = to_double (of_int ns / 100)
          \<and> to_double (1667 / 100) = to_double (of_int nf / 100)
          \<and> \<bar>of_int ns - (of_nat 3 / of_nat 6 * 10000 :: rat)\<bar> \<le> 1 / 2 + 1 / 1000000
          \<and> \<bar>of_int nf - (of_nat 1 / of_nat 6 * 10000 :: rat)\<bar> \<le> 1 / 2 + 1 / 1000000
          \<and> ns + nf \<le> 10001"
    unfolding f6 by blast
  have p32: "0 < total r32" "pending r32 = 0 \<and> queued r32 = 0" by (simp_all add: f32)
  with t32 obtain ms mf :: int where "successRate r32 = to_double (of_int ms / 100)"
      "failureRate r32 = to_double (of_int mf / 100)" "9999 \<le> ms + mf" "ms + mf \<le> 10001"
    by blast
  then have c: "\<exists>ns nf :: int. to_double (313 / 100) = to_double (of_int ns / 100)
          \<and> to_double (9688 / 100) = to_double (of_int nf / 100)
          \<and> 9999 \<le> ns + nf \<and> ns + nf \<le> 10001"
    unfolding f32 by blast
  have z: "total (getCampaignStats_reads 0 7 db_empty db_empty db_empty db_empty db_empty) = 0"
    by code_simp
  with t0 have z': "successRate (getCampaignStats_reads 0 7 db_empty db_empty db_empty db_empty db_empty) = 0"
    "failureRate (getCampaignStats_reads 0 7 db_empty db_empty db_empty db_empty db_empty) = 0"
    by blast+
  from t0 g1(3) have gz: "ds_successRate (getDeliveryStats 7 None db_empty) = 0" by blast
  have "0 < ds_total (getDeliveryStats 7 None db_queue)" by (simp add: g1)
  with t6 have "\<bar>ds_successRate (getDeliveryStats 7 None db_queue) * 100
        - (of_nat (ds_stats (getDeliveryStats 7 None db_queue) SENT)
            / of_nat (ds_total (getDeliveryStats 7 None db_queue)) * 10000 :: rat)\<bar>
        \<le> 1 / 2 + 1 / 1000000"
    by blast
  then have gp: "\<bar>ds_successRate (getDeliveryStats 7 None db_queue) * 100
        - (of_nat 0 / of_nat 1 * 10000 :: rat)\<bar> \<le> 1 / 2 + 1 / 1000000"
    unfolding g1 .
  from e6 [symmetric] a b c z' g1(1) gp gz show ?thesis
    unfolding r6_def d_def d'_def by blast
qed

section \<open>Campaign delivery\<close>

lemma set_campaign_status_keeps:
  "sent_messages (set_campaign_status camp s d) = sent_messages d"
  "communication_logs (set_campaign_status camp s d) = communication_logs d"
  "length (campaigns (set_campaign_status camp s d)) = length (campaigns d)"
  "camp < length (campaigns d) \<Longrightarrow> cp_status (campaigns (set_campaign_status camp s d) ! camp) = s"
  by (simp_all add: set_campaign_status_def)


lemma getCustomersForSegment_rules:
  "rules_json seg = Some rules \<Longrightarrow>
     filter_by_rules now (rules_json seg) (filter (\<lambda>c. c_userId c = s_userId seg) (customers d))
       = Some (getCustomersForSegment now d seg)"
  by (simp add: getCustomersForSegment_def filter_by_rules_def)

lemma getCustomersForSegment_no_rules:
  "rules_json seg = None \<Longrightarrow> getCustomersForSegment now d seg = []"
  by (simp add: getCustomersForSegment_def)



subsection \<open>The queueing loop of \<^verbatim>\<open>createAndDeliverCampaign\<close>\<close>

lemma addToQueue_effect:
  "addToQueue f now m d = (d', thrown) \<Longrightarrow>
     (thrown = None \<longleftrightarrow> f = NoFault)
     \<and> campaigns d' = campaigns d
     \<and> (\<forall>x \<in> set (sent_messages d'). sm_status x = FAILED \<longrightarrow> x \<in> set (sent_messages d))
     \<and> (\<forall>l \<in> set (communication_logs d'). cl_status l = FAILED \<longrightarrow> l \<in> set (communication_logs d))"
  by (cases f) (auto simp: queued_sent_message_def queued_log_def)

lemma deliver_customer_effect:
  assumes st': "st' = deliver_customer num_str date_str faults now uid camp msg subj pd c st"
  shows "map dl_customerEmail (ls_logs st') = map dl_customerEmail (ls_logs st) @ [c_email c]"
    and "map dl_status (ls_logs st')
           = map dl_status (ls_logs st) @ [if faults (c_id c) = NoFault then QUEUED else FAILED]"
    and "ls_queued st' = ls_queued st + (if faults (c_id c) = NoFault then 1 else 0)"
    and "campaigns (ls_db st') = campaigns (ls_db st)"
    and "\<forall>x \<in> set (sent_messages (ls_db st')). sm_status x = FAILED
            \<longrightarrow> x \<in> set (sent_messages (ls_db st))"
    and "\<forall>l \<in> set (communication_logs (ls_db st')). cl_status l = FAILED
            \<longrightarrow> l \<in> set (communication_logs (ls_db st))"
proof -
  obtain d' thrown where a: "addToQueue (faults (c_id c)) now
       \<lparr>qm_messageId = mk_messageId camp (c_id c) now, qm_recipientEmail = c_email c,
        qm_recipientName = Some (c_name c),
        qm_subject = (case subj of
               Some sj \<Rightarrow> (if sj = [] then ''Campaign Email''
                           else service_personalizeMessage num_str sj c pd)
             | None \<Rightarrow> ''Campaign Email''),
        qm_textContent = personalizedMessage
           (personalizeMessages num_str date_str msg [c] ''Valued Customer''
              (case pd of Some p \<Rightarrow> p | None \<Rightarrow> empty_customData) ! 0),
        qm_userId = uid\<rparr> (ls_db st) = (d', thrown)"
    by (cases "addToQueue (faults (c_id c)) now
       \<lparr>qm_messageId = mk_messageId camp (c_id c) now, qm_recipientEmail = c_email c,
        qm_recipientName = Some (c_name c),
        qm_subject = (case subj of
               Some sj \<Rightarrow> (if sj = [] then ''Campaign Email''
                           else service_personalizeMessage num_str sj c pd)
             | None \<Rightarrow> ''Campaign Email''),
        qm_textContent = personalizedMessage
           (personalizeMessages num_str date_str msg [c] ''Valued Customer''
              (case pd of Some p \<Rightarrow> p | None \<Rightarrow> empty_customData) ! 0),
        qm_userId = uid\<rparr> (ls_db st)") auto
  note e = addToQueue_effect [OF a]
  have db: "ls_db st' = d'"
    unfolding st' deliver_customer_def Let_def a by (simp split: option.splits)
  show "map dl_customerEmail (ls_logs st') = map dl_customerEmail (ls_logs st) @ [c_email c]"
    unfolding st' deliver_customer_def Let_def a by (simp split: option.splits)
  show "map dl_status (ls_logs st')
           = map dl_status (ls_logs st) @ [if faults (c_id c) = NoFault then QUEUED else FAILED]"
    unfolding st' deliver_customer_def Let_def a using e by (auto split: option.splits)
  show "ls_queued st' = ls_queued st + (if faults (c_id c) = NoFault then 1 else 0)"
    unfolding st' deliver_customer_def Let_def a using e by (auto split: option.splits)
  show "campaigns (ls_db st') = campaigns (ls_db st)"
    using e db by simp
  show "\<forall>x \<in> set (sent_messages (ls_db st')). sm_status x = FAILED
            \<longrightarrow> x \<in> set (sent_messages (ls_db st))"
    using e db by simp
  show "\<forall>l \<in> set (communication_logs (ls_db st')). cl_status l = FAILED
            \<longrightarrow> l \<in> set (communication_logs (ls_db st))"
    using e db by simp
qed

lemma deliver_customers_effect:
  assumes body: "body = deliver_customer num_str date_str faults now uid camp msg subj pd"
  shows "map dl_customerEmail (ls_logs (deliver_customers body cs st))
           = map dl_customerEmail (ls_logs st) @ map c_email cs
     \<and> map dl_status (ls_logs (deliver_customers body cs st))
           = map dl_status (ls_logs st)
             @ map (\<lambda>c. if faults (c_id c) = NoFault then QUEUED else FAILED) cs
     \<and> ls_queued (deliver_customers body cs st)
           = ls_queued st + length (filter (\<lambda>c. faults (c_id c) = NoFault) cs)
     \<and> campaigns (ls_db (deliver_customers body cs st)) = campaigns (ls_db st)
     \<and> (\<forall>x \<in> set (sent_messages (ls_db (deliver_customers body cs st))).
           sm_status x = FAILED \<longrightarrow> x \<in> set (sent_messages (ls_db st)))
     \<and> (\<forall>l \<in> set (communication_logs (ls_db (deliver_customers body cs st))).
           cl_status l = FAILED \<longrightarrow> l \<in> set (communication_logs (ls_db st)))"
proof (induction cs arbitrary: st)
  case Nil
  then show ?case by simp
next
  case (Cons c cs)
  have "body c st = deliver_customer num_str date_str faults now uid camp msg subj pd c st"
    by (simp add: body)
  note s = deliver_customer_effect [OF this]
  note IH = Cons.IH [of "body c st"]
  show ?case
    using IH s by simp
qed

subsection \<open>The storing loop of \<^verbatim>\<open>deliverCampaign\<close>\<close>

lemma zip_with_map: "zip xs (map f xs) = map (\<lambda>x. (x, f x)) xs"
  by (induction xs) auto

lemma record_failure_effect:
  assumes "record_failure f now owner camp subj c pm e d = (d', thrown)"
  shows "thrown = failed_log_throws f"
    and "campaigns d' = campaigns d"
    and "set (sent_messages d) \<subseteq> set (sent_messages d')"
    and "set (communication_logs d) \<subseteq> set (communication_logs d')"
    and "\<not> failed_log_throws f \<Longrightarrow>
           \<exists>l \<in> set (communication_logs d'). cl_customer_id l = Some (c_id c)
              \<and> cl_campaign_id l = Some camp \<and> cl_status l = FAILED \<and> error_message l = Some e"
    and "\<not> failed_sent_throws f \<Longrightarrow>
           \<exists>m \<in> set (sent_messages d'). recipientEmail m = c_email c
              \<and> sm_status m = FAILED \<and> errorMessage m = Some e"
  using assms
  by (auto simp: record_failure_def Let_def campaign_sent_message_def split: if_splits)

lemma store_customer_effect:
  assumes "store_customer faults now owner camp subj cp d = (d', thrown)"
  shows "thrown \<longrightarrow> failed_log_throws (faults (c_id (fst cp)))"
    and "campaigns d' = campaigns d"
    and "set (sent_messages d) \<subseteq> set (sent_messages d')"
    and "set (communication_logs d) \<subseteq> set (communication_logs d')"
    and "\<not> failed_log_throws (faults (c_id (fst cp))) \<Longrightarrow>
           \<exists>l \<in> set (communication_logs d'). cl_customer_id l = Some (c_id (fst cp))
              \<and> cl_campaign_id l = Some camp
              \<and> cl_status l = (if sent_throws (faults (c_id (fst cp))) = None
                                  \<and> log_throws (faults (c_id (fst cp))) = None
                               then SENT else FAILED)"
    and "(sent_throws (faults (c_id (fst cp))) \<noteq> None \<or> log_throws (faults (c_id (fst cp))) \<noteq> None)
           \<and> \<not> failed_sent_throws (faults (c_id (fst cp))) \<Longrightarrow>
           \<exists>m \<in> set (sent_messages d'). recipientEmail m = c_email (fst cp)
              \<and> sm_status m = FAILED \<and> errorMessage m \<noteq> None"
proof -
  let ?f = "faults (c_id (fst cp))"
  let ?d1 = "d\<lparr>sent_messages := sent_messages d @
               [campaign_sent_message now owner subj (fst cp) (snd cp) SENT
                  (mk_messageId camp (c_id (fst cp)) now) None (Some camp)]\<rparr>"
  consider (a) e where "sent_throws ?f = Some e"
      "record_failure ?f now owner camp subj (fst cp) (snd cp) e d = (d', thrown)"
    | (b) e where "sent_throws ?f = None" "log_throws ?f = Some e"
      "record_failure ?f now owner camp subj (fst cp) (snd cp) e ?d1 = (d', thrown)"
    | (c) "sent_throws ?f = None" "log_throws ?f = None" "\<not> thrown"
      "d' = ?d1\<lparr>communication_logs := communication_logs ?d1 @
              [\<lparr>cl_userId = owner, cl_campaign_id = Some camp,
                cl_customer_id = Some (c_id (fst cp)), cl_status = SENT,
                sent_at = Some now, updated_at = Some now,
                cl_message = personalizedMessage (snd cp),
                vendor_message_id = Some (mk_messageId camp (c_id (fst cp)) now),
                error_message = None\<rparr>]\<rparr>"
    using assms by (auto simp: store_customer_def Let_def split: option.splits)
  then have all: "(thrown \<longrightarrow> failed_log_throws ?f)
      \<and> campaigns d' = campaigns d
      \<and> set (sent_messages d) \<subseteq> set (sent_messages d')
      \<and> set (communication_logs d) \<subseteq> set (communication_logs d')
      \<and> (\<not> failed_log_throws ?f \<longrightarrow>
           (\<exists>l \<in> set (communication_logs d'). cl_customer_id l = Some (c_id (fst cp))
              \<and> cl_campaign_id l = Some camp
              \<and> cl_status l = (if sent_throws ?f = None \<and> log_throws ?f = None
                               then SENT else FAILED)))
      \<and> ((sent_throws ?f \<noteq> None \<or> log_throws ?f \<noteq> None) \<and> \<not> failed_sent_throws ?f \<longrightarrow>
           (\<exists>m \<in> set (sent_messages d'). recipientEmail m = c_email (fst cp)
              \<and> sm_status m = FAILED \<and> errorMessage m \<noteq> None))"
  proof cases
    case a
    note r = record_failure_effect [OF a(2)]
    show ?thesis using a(1) r by auto
  next
    case b
    note r = record_failure_effect [OF b(3)]
    have "set (sent_messages d) \<subseteq> set (sent_messages ?d1)" by auto
    with r(3) have "set (sent_messages d) \<subseteq> set (sent_messages d')" by blast
    moreover have "campaigns d' = campaigns d" "set (communication_logs d) \<subseteq> set (communication_logs d')"
      using r(2) r(4) by simp_all
    ultimately show ?thesis using b(1) b(2) r(1) r(5) r(6) by auto
  next
    case c
    then show ?thesis by auto
  qed
  from all show "thrown \<longrightarrow> failed_log_throws ?f" by blast
  from all show "campaigns d' = campaigns d" by blast
  from all show "set (sent_messages d) \<subseteq> set (sent_messages d')" by blast
  from all show "set (communication_logs d) \<subseteq> set (communication_logs d')" by blast
  from all show "\<not> failed_log_throws ?f \<Longrightarrow>
           \<exists>l \<in> set (communication_logs d'). cl_customer_id l = Some (c_id (fst cp))
              \<and> cl_campaign_id l = Some camp
              \<and> cl_status l = (if sent_throws ?f = None \<and> log_throws ?f = None
                               then SENT else FAILED)" by blast
  from all show "(sent_throws ?f \<noteq> None \<or> log_throws ?f \<noteq> None) \<and> \<not> failed_sent_throws ?f \<Longrightarrow>
           \<exists>m \<in> set (sent_messages d'). recipientEmail m = c_email (fst cp)
              \<and> sm_status m = FAILED \<and> errorMessage m \<noteq> None" by blast
qed

lemma store_customers_effect:
  assumes body: "body = store_customer faults now owner camp subj"
    and ok: "\<forall>cp \<in> set cps. \<not> failed_log_throws (faults (c_id (fst cp)))"
    and run: "store_customers body cps d = (d', thrown)"
  shows "\<not> thrown \<and> campaigns d' = campaigns d
     \<and> set (sent_messages d) \<subseteq> set (sent_messages d')
     \<and> set (communication_logs d) \<subseteq> set (communication_logs d')
     \<and> (\<forall>cp \<in> set cps.
           \<exists>l \<in> set (communication_logs d'). cl_customer_id l = Some (c_id (fst cp))
              \<and> cl_campaign_id l = Some camp
              \<and> cl_status l = (if sent_throws (faults (c_id (fst cp))) = None
                                  \<and> log_throws (faults (c_id (fst cp))) = None
                               then SENT else FAILED))
     \<and> (\<forall>cp \<in> set cps.
           (sent_throws (faults (c_id (fst cp))) \<noteq> None \<or> log_throws (faults (c_id (fst cp))) \<noteq> None)
           \<and> \<not> failed_sent_throws (faults (c_id (fst cp))) \<longrightarrow>
           (\<exists>m \<in> set (sent_messages d'). recipientEmail m = c_email (fst cp)
              \<and> sm_status m = FAILED \<and> errorMessage m \<noteq> None))"
  using ok run
proof (induction cps arbitrary: d)
  case Nil
  then show ?case by simp
next
  case (Cons cp cps)
  obtain d1 t1 where step: "store_customer faults now owner camp subj cp d = (d1, t1)"
    by (cases "store_customer faults now owner camp subj cp d") auto
  note s = store_customer_effect [OF step]
  from Cons.prems(1) have okcp: "\<not> failed_log_throws (faults (c_id (fst cp)))"
    and okrest: "\<forall>x \<in> set cps. \<not> failed_log_throws (faults (c_id (fst x)))"
    by simp_all
  from s(1) okcp have nt: "\<not> t1" by blast
  with Cons.prems(2) step have rest: "store_customers body cps d1 = (d', thrown)"
    by (simp add: body)
  note IH = Cons.IH [OF okrest rest]
  from IH s(2) have c: "campaigns d' = campaigns d" by simp
  from IH s(3) have sm: "set (sent_messages d) \<subseteq> set (sent_messages d')" by blast
  from IH s(4) have cl: "set (communication_logs d) \<subseteq> set (communication_logs d')" by blast
  from s(5) [OF okcp] IH
  have l0: "\<exists>l \<in> set (communication_logs d'). cl_customer_id l = Some (c_id (fst cp))
              \<and> cl_campaign_id l = Some camp
              \<and> cl_status l = (if sent_throws (faults (c_id (fst cp))) = None
                                  \<and> log_throws (faults (c_id (fst cp))) = None
                               then SENT else FAILED)"
    by blast
  from s(6) IH
  have m0: "(sent_throws (faults (c_id (fst cp))) \<noteq> None \<or> log_throws (faults (c_id (fst cp))) \<noteq> None)
           \<and> \<not> failed_sent_throws (faults (c_id (fst cp))) \<longrightarrow>
           (\<exists>m \<in> set (sent_messages d'). recipientEmail m = c_email (fst cp)
              \<and> sm_status m = FAILED \<and> errorMessage m \<noteq> None)"
    by blast
  from IH c sm cl l0 m0 show ?case by simp
qed

text \<open>
  C4 (as stated): when queueing or storing throws for one customer, a FAILED
  communication log and a FAILED sent message are both persisted for that customer.
  On the creation path nothing FAILED is persisted: with two matching customers and a
  write that throws for the first, \<^verbatim>\<open>createCampaign\<close> reports a FAILED entry for the
  first customer in its result, and the database holds afterwards one QUEUED sent
  message and one QUEUED log, both for the second customer.
\<close>

theorem C4_failed_not_persisted_counterexample:
  "fst (createCampaign fmt_num fmt_date faults_first 5 7
        \<lparr>b_segment_id = Some 0, b_message = ''Sale for {name}'', b_subject = None,
         b_customData = None, b_discount_percentage = None\<rparr> db_two)
     = Response Created201
         \<lparr>campaignId = ''1'', totalCustomers = 2, messagesQueued = 1, messagesSent = 0,
          messagesFailed = 0,
          deliveryLogs =
            [\<lparr>dl_customerId = ''1'', dl_customerEmail = ''ann@x.io'', dl_status = FAILED,
              dl_messageId = ''campaign_1_1_5'', dl_error = Some ''write failed''\<rparr>,
             \<lparr>dl_customerId = ''2'', dl_customerEmail = ''bob@x.io'', dl_status = QUEUED,
              dl_messageId = ''campaign_1_2_5'', dl_error = None\<rparr>]\<rparr>
   \<and> map recipientEmail (sent_messages (snd (createCampaign fmt_num fmt_date faults_first 5 7
        \<lparr>b_segment_id = Some 0, b_message = ''Sale for {name}'', b_subject = None,
         b_customData = None, b_discount_percentage = None\<rparr> db_two))) = [''bob@x.io'']
   \<and> map sm_status (sent_messages (snd (createCampaign fmt_num fmt_date faults_first 5 7
        \<lparr>b_segment_id = Some 0, b_message = ''Sale for {name}'', b_subject = None,
         b_customData = None, b_discount_percentage = None\<rparr> db_two))) = [QUEUED]
   \<and> map cl_status (communication_logs (snd (createCampaign fmt_num fmt_date faults_first 5 7
        \<lparr>b_segment_id = Some 0, b_message = ''Sale for {name}'', b_subject = None,
         b_customData = None, b_discount_percentage = None\<rparr> db_two))) = [QUEUED]"
  by code_simp

text \<open>
  C4 (amended). In \<^verbatim>\<open>createAndDeliverCampaign\<close>, a throw while queueing one customer
  is caught for that customer alone: the result gets a FAILED entry for that customer,
  no FAILED communication log or sent message is persisted, and processing continues,
  so that the result has one entry for every matching customer, in order, QUEUED
  wherever queueing succeeded. In \<^verbatim>\<open>deliverCampaign\<close>, provided the write of the FAILED
  log itself does not throw for any customer, a throw while storing one customer is
  caught for that customer alone: every matching customer gets a communication log of
  the campaign, SENT if nothing threw for that customer and FAILED otherwise, a
  customer whose storing threw also gets a FAILED sent message when that write
  succeeds, and the campaign ends COMPLETED.
\<close>

theorem C4_failure_isolation:
  assumes seg: "findById (segments d) sid = Some seg" and own: "s_userId seg = uid"
    and cs: "getCustomersForSegment now d seg = cs" and ne: "cs \<noteq> []"
    and user: "map_of (users d) uid = Some em" "em \<noteq> []"
    and ok: "\<forall>c \<in> set cs. \<not> failed_log_throws (sfaults (c_id c))"
  shows "(\<exists>r d'. createAndDeliverCampaign num_str date_str faults now uid sid msg subj pd d
                  = (Inr r, d')
            \<and> totalCustomers r = length cs
            \<and> map dl_customerEmail (deliveryLogs r) = map c_email cs
            \<and> map dl_status (deliveryLogs r)
                = map (\<lambda>c. if faults (c_id c) = NoFault then QUEUED else FAILED) cs
            \<and> messagesQueued r = length (filter (\<lambda>c. faults (c_id c) = NoFault) cs)
            \<and> (\<forall>x \<in> set (sent_messages d'). sm_status x = FAILED \<longrightarrow> x \<in> set (sent_messages d))
            \<and> (\<forall>l \<in> set (communication_logs d'). cl_status l = FAILED
                   \<longrightarrow> l \<in> set (communication_logs d)))
     \<and> (camp < length (campaigns d) \<longrightarrow>
          cp_status (campaigns (deliverCampaign num_str date_str sfaults now camp sid msg subject
                       cdata d) ! camp) = COMPLETED)
     \<and> (\<forall>c \<in> set cs.
           \<exists>l \<in> set (communication_logs
                       (deliverCampaign num_str date_str sfaults now camp sid msg subject cdata d)).
              cl_customer_id l = Some (c_id c) \<and> cl_campaign_id l = Some camp
              \<and> cl_status l = (if sent_throws (sfaults (c_id c)) = None
                                  \<and> log_throws (sfaults (c_id c)) = None
                               then SENT else FAILED))
     \<and> (\<forall>c \<in> set cs.
           (sent_throws (sfaults (c_id c)) \<noteq> None \<or> log_throws (sfaults (c_id c)) \<noteq> None)
           \<and> \<not> failed_sent_throws (sfaults (c_id c)) \<longrightarrow>
           (\<exists>m \<in> set (sent_messages
                        (deliverCampaign num_str date_str sfaults now camp sid msg subject cdata d)).
              recipientEmail m = c_email c \<and> sm_status m = FAILED \<and> errorMessage m \<noteq> None))"
proof -
  \<comment> \<open>the queueing path\<close>
  define d1 where "d1 = d\<lparr>campaigns := campaigns d @
         [\<lparr>cp_userId = uid, cp_segment_id = sid, cp_message = msg,
           cp_subject = opt_or subj ''Campaign Email'', cp_status = ACTIVE\<rparr>]\<rparr>"
  define st where "st = deliver_customers
         (deliver_customer num_str date_str faults now uid (length (campaigns d)) msg subj pd)
         cs \<lparr>ls_db = d1, ls_logs = [], ls_queued = 0, ls_failed = 0\<rparr>"
  have run: "createAndDeliverCampaign num_str date_str faults now uid sid msg subj pd d
       = (Inr \<lparr>campaignId = show_nat (length (campaigns d)), totalCustomers = length cs,
               messagesQueued = ls_queued st, messagesSent = 0, messagesFailed = 0,
               deliveryLogs = ls_logs st\<rparr>, ls_db st)"
    unfolding createAndDeliverCampaign_def Let_def st_def d1_def
    using seg own cs ne by simp
  note e = deliver_customers_effect [OF refl, of num_str date_str faults now uid
      "length (campaigns d)" msg subj pd cs "\<lparr>ls_db = d1, ls_logs = [], ls_queued = 0, ls_failed = 0\<rparr>",
      folded st_def]
  have d1: "sent_messages d1 = sent_messages d" "communication_logs d1 = communication_logs d"
    by (simp_all add: d1_def)
  have queue: "\<exists>r d'. createAndDeliverCampaign num_str date_str faults now uid sid msg subj pd d
                  = (Inr r, d')
            \<and> totalCustomers r = length cs
            \<and> map dl_customerEmail (deliveryLogs r) = map c_email cs
            \<and> map dl_status (deliveryLogs r)
                = map (\<lambda>c. if faults (c_id c) = NoFault then QUEUED else FAILED) cs
            \<and> messagesQueued r = length (filter (\<lambda>c. faults (c_id c) = NoFault) cs)
            \<and> (\<forall>x \<in> set (sent_messages d'). sm_status x = FAILED \<longrightarrow> x \<in> set (sent_messages d))
            \<and> (\<forall>l \<in> set (communication_logs d'). cl_status l = FAILED
                   \<longrightarrow> l \<in> set (communication_logs d))"
  proof (intro exI conjI)
    show "createAndDeliverCampaign num_str date_str faults now uid sid msg subj pd d
            = (Inr \<lparr>campaignId = show_nat (length (campaigns d)), totalCustomers = length cs,
                 messagesQueued = ls_queued st, messagesSent = 0, messagesFailed = 0,
                 deliveryLogs = ls_logs st\<rparr>, ls_db st)"
      by (rule run)
  qed (use e d1 in simp_all)
  \<comment> \<open>the storing path\<close>
  define pdata where "pdata =
      \<lparr>cd_discount = Some (opt_or (cd_discount (case cdata of Some c \<Rightarrow> c | None \<Rightarrow> empty_customData)) ''10''),
       cd_storeName = Some (opt_or (cd_storeName (case cdata of Some c \<Rightarrow> c | None \<Rightarrow> empty_customData)) ''Your Store''),
       cd_couponCode = Some (opt_or (cd_couponCode (case cdata of Some c \<Rightarrow> c | None \<Rightarrow> empty_customData)) ''WELCOME10''),
       cd_storeAddress = None, cd_storePhone = None\<rparr>"
  define cps where "cps = map (\<lambda>c. (c, personalizeMessage num_str date_str msg c ''Valued Customer'' pdata)) cs"
  from cs ne obtain rules where rules: "rules_json seg = Some rules"
    by (cases "rules_json seg") (auto simp: getCustomersForSegment_def)
  have matching: "filter_by_rules now (rules_json seg)
             (filter (\<lambda>c. c_userId c = s_userId seg) (customers d)) = Some cs"
    using getCustomersForSegment_rules [OF rules, of now d] cs by simp
  obtain d2 thrown where loop: "store_customers (store_customer sfaults now (s_userId seg) camp subject)
      cps d = (d2, thrown)"
    by (cases "store_customers (store_customer sfaults now (s_userId seg) camp subject) cps d") auto
  have okc: "\<forall>cp \<in> set cps. \<not> failed_log_throws (sfaults (c_id (fst cp)))"
    using ok by (auto simp: cps_def)
  note s = store_customers_effect [OF refl okc loop]
  have del: "deliverCampaign num_str date_str sfaults now camp sid msg subject cdata d
       = set_campaign_status camp COMPLETED d2"
    using seg own user ne matching loop s
    by (simp add: deliverCampaign_def Let_def personalizeMessages_def zip_with_map
          pdata_def [symmetric] cps_def [symmetric])
  have fst_cps: "\<And>c. c \<in> set cs \<Longrightarrow>
      (c, personalizeMessage num_str date_str msg c ''Valued Customer'' pdata) \<in> set cps"
    by (auto simp: cps_def)
  have status: "camp < length (campaigns d) \<longrightarrow>
          cp_status (campaigns (deliverCampaign num_str date_str sfaults now camp sid msg subject
                       cdata d) ! camp) = COMPLETED"
    unfolding del using s by (simp add: set_campaign_status_keeps)
  have logs: "\<forall>c \<in> set cs.
           \<exists>l \<in> set (communication_logs
                       (deliverCampaign num_str date_str sfaults now camp sid msg subject cdata d)).
              cl_customer_id l = Some (c_id c) \<and> cl_campaign_id l = Some camp
              \<and> cl_status l = (if sent_throws (sfaults (c_id c)) = None
                                  \<and> log_throws (sfaults (c_id c)) = None
                               then SENT else FAILED)"
  proof
    fix c assume "c \<in> set cs"
    from fst_cps [OF this] s
    show "\<exists>l \<in> set (communication_logs
                       (deliverCampaign num_str date_str sfaults now camp sid msg subject cdata d)).
              cl_customer_id l = Some (c_id c) \<and> cl_campaign_id l = Some camp
              \<and> cl_status l = (if sent_throws (sfaults (c_id c)) = None
                                  \<and> log_throws (sfaults (c_id c)) = None
                               then SENT else FAILED)"
      unfolding del set_campaign_status_keeps by fastforce
  qed
  have sents: "\<forall>c \<in> set cs.
           (sent_throws (sfaults (c_id c)) \<noteq> None \<or> log_throws (sfaults (c_id c)) \<noteq> None)
           \<and> \<not> failed_sent_throws (sfaults (c_id c)) \<longrightarrow>
           (\<exists>m \<in> set (sent_messages
                        (deliverCampaign num_str date_str sfaults now camp sid msg subject cdata d)).
              recipientEmail m = c_email c \<and> sm_status m = FAILED \<and> errorMessage m \<noteq> None)"
  proof
    fix c assume "c \<in> set cs"
    from fst_cps [OF this] s
    show "(sent_throws (sfaults (c_id c)) \<noteq> None \<or> log_throws (sfaults (c_id c)) \<noteq> None)
           \<and> \<not> failed_sent_throws (sfaults (c_id c)) \<longrightarrow>
           (\<exists>m \<in> set (sent_messages
                        (deliverCampaign num_str date_str sfaults now camp sid msg subject cdata d)).
              recipientEmail m = c_email c \<and> sm_status m = FAILED \<and> errorMessage m \<noteq> None)"
      unfolding del set_campaign_status_keeps by fastforce
  qed
  from queue status logs sents show ?thesis by blast
qed

theorem C4_failure_isolation_witness:
  "findById (segments db_two) 0 = Some seg_any \<and> s_userId seg_any = 7
   \<and> getCustomersForSegment 5 db_two seg_any = [ann, bob]
   \<and> failed_log_throws (store_first (c_id ann)) = False
   \<and> failed_log_throws (store_first (c_id bob)) = False
   \<and> cp_status (campaigns (deliverCampaign fmt_num fmt_date store_first 5 0 0 ''Sale for {name}''
                   ''Sale'' None db_two) ! 0) = COMPLETED
   \<and> map cl_status (communication_logs (deliverCampaign fmt_num fmt_date store_first 5 0 0
                   ''Sale for {name}'' ''Sale'' None db_two)) = [FAILED, SENT]
   \<and> map sm_status (sent_messages (deliverCampaign fmt_num fmt_date store_first 5 0 0
                   ''Sale for {name}'' ''Sale'' None db_two)) = [FAILED, SENT]"
proof -
  have h: "findById (segments db_two) 0 = Some seg_any" "s_userId seg_any = 7"
    "getCustomersForSegment 5 db_two seg_any = [ann, bob]"
    "map_of (users db_two) 7 = Some ''owner@x.io''"
    "(0::nat) < length (campaigns db_two)"
    "failed_log_throws (store_first (c_id ann)) = False"
    "failed_log_throws (store_first (c_id bob)) = False"
    by code_simp+
  have ne: "[ann, bob] \<noteq> []" "''owner@x.io'' \<noteq> []"
    by simp_all
  have ok: "\<forall>c \<in> set [ann, bob]. \<not> failed_log_throws (store_first (c_id c))"
    using h(6) h(7) by simp
  have v: "map cl_status (communication_logs (deliverCampaign fmt_num fmt_date store_first 5 0 0
                   ''Sale for {name}'' ''Sale'' None db_two)) = [FAILED, SENT]"
    "map sm_status (sent_messages (deliverCampaign fmt_num fmt_date store_first 5 0 0
                   ''Sale for {name}'' ''Sale'' None db_two)) = [FAILED, SENT]"
    by code_simp+
  note t = C4_failure_isolation [OF h(1) h(2) h(3) ne(1) h(4) ne(2) ok, where num_str = fmt_num
            and date_str = fmt_date and camp = 0 and msg = "''Sale for {name}''"
            and subject = "''Sale''" and cdata = None]
  from t h(5) have r: "cp_status (campaigns (deliverCampaign fmt_num fmt_date store_first 5 0 0
                   ''Sale for {name}'' ''Sale'' None db_two) ! 0) = COMPLETED"
    by blast
  from h(1) h(2) h(3) h(6) h(7) r v show ?thesis
    by blast
qed

end
